theory Spec2Isabelle
  imports Main "HOL-Library.List_Lexorder"
begin

section \<open>Strings, numbers and buffers of the host language\<close>

text \<open>
  A JavaScript string is a sequence of UTF-16 code units and a \<^verbatim>\<open>Buffer\<close> a sequence of
  bytes; both are lists of naturals here. The relational operator \<^verbatim>\<open><\<close> on strings
  compares code units lexicographically, which is the order of \<^theory_text>\<open>List_Lexorder\<close>.
\<close>

type_synonym jsstring = "nat list"
type_synonym bytes = "nat list"

definition ascii :: "string \<Rightarrow> jsstring" where
  "ascii s = map of_char s"

text \<open>
  \<^verbatim>\<open>Number.prototype.toString\<close> on an integer-valued number: the decimal digits, with a
  leading minus sign below zero (the built-in switches to exponent notation from
  \<open>10\<^sup>2\<^sup>1\<close> on, far outside what the frame writer pads).
\<close>

fun nat_digits :: "nat \<Rightarrow> jsstring" where
  "nat_digits n = (if n < 10 then [48 + n] else nat_digits (n div 10) @ [48 + n mod 10])"

declare nat_digits.simps [simp del]

definition Number_toString :: "int \<Rightarrow> jsstring" where
  "Number_toString n = (if n < 0 then 45 # nat_digits (nat (- n)) else nat_digits (nat n))"

text \<open>\<^verbatim>\<open>String.prototype.padStart(targetLength, padString)\<close>: never truncates.\<close>

definition padStart :: "nat \<Rightarrow> jsstring \<Rightarrow> jsstring \<Rightarrow> jsstring" where
  "padStart targetLength padString s =
     (if targetLength \<le> length s \<or> padString = [] then s
      else take (targetLength - length s)
             (concat (replicate (targetLength - length s) padString)) @ s)"

text \<open>
  \<^verbatim>\<open>String.prototype.trim\<close> removes the white space and line terminator code units of
  ECMAScript from both ends.
\<close>

definition isWhiteSpace :: "nat \<Rightarrow> bool" where
  "isWhiteSpace c \<longleftrightarrow>
     c \<in> {9, 10, 11, 12, 13, 32, 160, 5760, 8232, 8233, 8239, 8287, 12288, 65279}
     \<or> (8192 \<le> c \<and> c \<le> 8202)"

definition trim :: "jsstring \<Rightarrow> jsstring" where
  "trim s = rev (dropWhile isWhiteSpace (rev (dropWhile isWhiteSpace s)))"

text \<open>\<^verbatim>\<open>s.split("\n")\<close>: the segments between line feeds; never the empty array.\<close>

fun split_newline :: "jsstring \<Rightarrow> jsstring list" where
  "split_newline [] = [[]]"
| "split_newline (c # cs) =
     (if c = 10 then [] # split_newline cs
      else (case split_newline cs of [] \<Rightarrow> [[c]] | l # ls \<Rightarrow> (c # l) # ls))"

text \<open>\<^verbatim>\<open>Array.prototype.pop\<close>: the last element (\<open>undefined\<close> on the empty array) and the rest.\<close>

definition pop :: "'a list \<Rightarrow> 'a option \<times> 'a list" where
  "pop xs = (if xs = [] then (None, []) else (Some (last xs), butlast xs))"

subsection \<open>Decoding a buffer: \<^verbatim>\<open>chunk.toString()\<close>\<close>

text \<open>
  \<^verbatim>\<open>Buffer.prototype.toString()\<close> decodes the bytes of that one buffer as UTF-8 and
  replaces every ill-formed sequence by U+FFFD, as the decoder of the Encoding Standard
  does: a lead byte fixes how many continuation bytes follow and the range of the
  first of them; a byte outside the range ends the sequence with U+FFFD and is read
  again as a first byte; a sequence cut off by the end of the buffer gives U+FFFD.
  Code points from \<open>0x10000\<close> on become a surrogate pair.
\<close>

datatype utf8_state = Idle | Pending nat nat nat nat

definition utf16 :: "nat \<Rightarrow> jsstring" where
  "utf16 cp = (if cp < 0x10000 then [cp]
               else [0xD800 + (cp - 0x10000) div 0x400, 0xDC00 + (cp - 0x10000) mod 0x400])"

definition utf8_first :: "nat \<Rightarrow> jsstring \<times> utf8_state" where
  "utf8_first b =
     (if b \<le> 0x7F then ([b], Idle)
      else if 0xC2 \<le> b \<and> b \<le> 0xDF then ([], Pending 1 (b mod 32) 0x80 0xBF)
      else if 0xE0 \<le> b \<and> b \<le> 0xEF then
        ([], Pending 2 (b mod 16) (if b = 0xE0 then 0xA0 else 0x80) (if b = 0xED then 0x9F else 0xBF))
      else if 0xF0 \<le> b \<and> b \<le> 0xF4 then
        ([], Pending 3 (b mod 8) (if b = 0xF0 then 0x90 else 0x80) (if b = 0xF4 then 0x8F else 0xBF))
      else ([0xFFFD], Idle))"

fun utf8_step :: "utf8_state \<Rightarrow> nat \<Rightarrow> jsstring \<times> utf8_state" where
  "utf8_step Idle b = utf8_first b"
| "utf8_step (Pending needed cp lower upper) b =
     (if lower \<le> b \<and> b \<le> upper then
        (if needed = 1 then (utf16 (cp * 64 + b mod 64), Idle)
         else ([], Pending (needed - 1) (cp * 64 + b mod 64) 0x80 0xBF))
      else (case utf8_first b of (out, s) \<Rightarrow> (0xFFFD # out, s)))"

fun utf8_run :: "utf8_state \<Rightarrow> bytes \<Rightarrow> jsstring \<times> utf8_state" where
  "utf8_run s [] = ([], s)"
| "utf8_run s (b # bs) =
     (case utf8_step s b of (out1, s1) \<Rightarrow>
        (case utf8_run s1 bs of (out2, s2) \<Rightarrow> (out1 @ out2, s2)))"

definition utf8_flush :: "utf8_state \<Rightarrow> jsstring" where
  "utf8_flush s = (case s of Idle \<Rightarrow> [] | Pending _ _ _ _ \<Rightarrow> [0xFFFD])"

definition Buffer_toString :: "bytes \<Rightarrow> jsstring" where
  "Buffer_toString chunk = (case utf8_run Idle chunk of (out, s) \<Rightarrow> out @ utf8_flush s)"

section \<open>The frame writer (\<^verbatim>\<open>frame-writer.ts\<close>)\<close>

text \<open>
  The file system as far as the frame writer touches it: the existing directories, each
  with its files by name. \<^verbatim>\<open>fs.writeFileSync\<close> throws when the directory is missing,
  which is the failure the source's \<^verbatim>\<open>try\<close> blocks are there for; a call that throws
  inside a \<^verbatim>\<open>try\<close> leaves the model's state as it is (the \<^verbatim>\<open>catch\<close> only logs).
  Other input and output failures are not modelled: \<^verbatim>\<open>mkdirSync\<close> and
  \<^verbatim>\<open>rmSync\<close> succeed, and a directory holds files only. Console output is not part
  of the state.
\<close>

type_synonym filesystem = "jsstring \<rightharpoonup> (jsstring \<rightharpoonup> bytes)"

record FrameWriter =
  frameDir :: jsstring
  frameCount :: nat
  active :: bool

text \<open>
  The constructor; \<open>tmpFrames\<close> stands for
  \<^verbatim>\<open>path.join(os.tmpdir(), "focus-wizard-frames")\<close>. An empty string is falsy.
\<close>

definition FrameWriter_new :: "jsstring \<Rightarrow> jsstring option \<Rightarrow> FrameWriter" where
  "FrameWriter_new tmpFrames dir =
     \<lparr>frameDir = (case dir of None \<Rightarrow> tmpFrames | Some d \<Rightarrow> if d = [] then tmpFrames else d),
      frameCount = 0, active = False\<rparr>"

definition containerFileStreamPath :: jsstring where
  "containerFileStreamPath = ascii ''/frames/frame0000000000000000.jpg''"

definition clearFrames :: "FrameWriter \<Rightarrow> filesystem \<Rightarrow> filesystem" where
  "clearFrames fw fs =
     (case fs (frameDir fw) of None \<Rightarrow> fs | Some _ \<Rightarrow> fs(frameDir fw \<mapsto> Map.empty))"

definition init :: "FrameWriter \<times> filesystem \<Rightarrow> FrameWriter \<times> filesystem" where
  "init = (\<lambda>(fw, fs).
     let fs1 = (if fs (frameDir fw) = None then fs(frameDir fw \<mapsto> Map.empty) else fs);
         fs2 = clearFrames fw fs1
     in (fw\<lparr>frameCount := 0, active := True\<rparr>, fs2))"

definition frameFilename :: "int \<Rightarrow> jsstring" where
  "frameFilename timestampUs =
     ascii ''frame'' @ padStart 16 (ascii ''0'') (Number_toString timestampUs) @ ascii ''.jpg''"

text \<open>
  \<open>timestampUs\<close> is an integer number of microseconds (\<^verbatim>\<open>Date.now() * 1000\<close>), on which
  \<^verbatim>\<open>Math.floor\<close> is the identity.
\<close>

definition writeFrame :: "int \<Rightarrow> bytes \<Rightarrow> FrameWriter \<times> filesystem \<Rightarrow> FrameWriter \<times> filesystem" where
  "writeFrame timestampUs jpegData = (\<lambda>(fw, fs).
     if \<not> active fw then (fw, fs)
     else (case fs (frameDir fw) of
             None \<Rightarrow> (fw, fs)
           | Some dir \<Rightarrow>
               (fw\<lparr>frameCount := frameCount fw + 1\<rparr>,
                fs(frameDir fw \<mapsto> dir(frameFilename timestampUs \<mapsto> jpegData)))))"

definition writeEndOfStream :: "FrameWriter \<Rightarrow> filesystem \<Rightarrow> filesystem" where
  "writeEndOfStream fw fs =
     (case fs (frameDir fw) of
        None \<Rightarrow> fs
      | Some dir \<Rightarrow> fs(frameDir fw \<mapsto> dir(ascii ''end_of_stream'' \<mapsto> [])))"

definition cleanup :: "FrameWriter \<times> filesystem \<Rightarrow> FrameWriter \<times> filesystem" where
  "cleanup = (\<lambda>(fw, fs). (fw\<lparr>active := False\<rparr>, fs(frameDir fw := None)))"

section \<open>The bridge manager (\<^verbatim>\<open>bridge-manager.ts\<close>)\<close>

subsection \<open>Configuration, messages and notifications\<close>

text \<open>
  The type \<open>'n\<close> stands for the numbers of the host language (IEEE doubles); the model
  never computes with them. Where the source interpolates one into a template string,
  the conversion is the parameter \<open>numStr\<close>.
\<close>

datatype backend = Docker | Local

record 'n BridgeManagerOptions =
  apiKey :: jsstring
  opt_mode :: "backend option"
  opt_dockerImage :: "jsstring option"
  opt_frameDir :: "jsstring option"
  bridgePath :: "jsstring option"
  cameraIndex :: "'n option"
  captureWidth :: "'n option"
  captureHeight :: "'n option"
  gazeThreshold :: "'n option"
  blinkThreshold :: "'n option"
  pulseThreshold :: "'n option"
  breathingThreshold :: "'n option"

text \<open>
  The values \<^verbatim>\<open>JSON.parse\<close> returns. \<^verbatim>\<open>JSON.parse\<close> itself is a parameter
  \<open>parse\<close> of the codec: \<open>None\<close> is the \<^verbatim>\<open>SyntaxError\<close> it throws. A value of type
  \<open>'n json option\<close> is a JavaScript value with \<open>None\<close> for \<^verbatim>\<open>undefined\<close>.
\<close>

datatype 'n json =
    JNull
  | JBool bool
  | JNumber 'n
  | JString jsstring
  | JArray "'n json list"
  | JObject "(jsstring \<times> 'n json) list"

text \<open>
  Reading one of the properties \<^verbatim>\<open>type\<close>, \<^verbatim>\<open>data\<close>, \<^verbatim>\<open>status\<close>, \<^verbatim>\<open>message\<close>
  (none of which a prototype of a parsed value defines): a \<^verbatim>\<open>TypeError\<close> (\<open>None\<close>) on
  \<^verbatim>\<open>null\<close> and \<^verbatim>\<open>undefined\<close>, the own property of an object, \<^verbatim>\<open>undefined\<close> otherwise.
\<close>

definition getProperty :: "'n json option \<Rightarrow> jsstring \<Rightarrow> 'n json option option" where
  "getProperty v key =
     (case v of
        None \<Rightarrow> None
      | Some JNull \<Rightarrow> None
      | Some (JObject kvs) \<Rightarrow> Some (map_of kvs key)
      | Some _ \<Rightarrow> Some None)"

text \<open>
  What the manager hands to its listeners: the calls of \<^verbatim>\<open>this.emit\<close>, in order. The
  listeners are outside the model: they are taken to return without throwing and
  without calling back into the manager.
\<close>

datatype 'n notification =
    NReady
  | NFocus "'n json option"
  | NMetrics "'n json option"
  | NEdge "'n json option"
  | NStatus "'n json option"
  | NBridgeError "'n json option"
  | NClose "int option"
  | NError jsstring

text \<open>
  What the manager asks of the operating system besides spawning the bridge: the image
  build with its arguments, the two docker commands, signals and timers. The probes
  \<^verbatim>\<open>docker info\<close> and \<^verbatim>\<open>docker image inspect\<close> only give an answer and are part of
  the environment of \<^verbatim>\<open>start\<close> below.
\<close>

datatype signal = SIGTERM | SIGKILL

datatype action =
    SpawnDockerBuild "jsstring list"
  | ExecDockerRm jsstring
  | ExecDockerStop jsstring
  | Kill signal
  | SetTimeout nat

record ChildProcess =
  spawnfile :: jsstring
  spawnargs :: "jsstring list"

subsection \<open>The manager's state\<close>

text \<open>
  The fields of the class, followed by what the manager has emitted, the file system
  it shares with the frame writer, and the actions it has issued.
\<close>

record 'n BridgeManager =
  options :: "'n BridgeManagerOptions"
  dockerImage :: jsstring
  mode :: backend
  process :: "ChildProcess option"
  lineBuffer :: jsstring
  isReady :: bool
  frameWriter :: "FrameWriter option"
  emitted :: "'n notification list"
  files :: filesystem
  issued :: "action list"

definition BridgeManager_new :: "'n BridgeManagerOptions \<Rightarrow> filesystem \<Rightarrow> 'n BridgeManager" where
  "BridgeManager_new opts fs =
     \<lparr>options = opts,
      dockerImage = (case opt_dockerImage opts of
                       None \<Rightarrow> ascii ''focus-wizard-bridge''
                     | Some i \<Rightarrow> if i = [] then ascii ''focus-wizard-bridge'' else i),
      mode = (case opt_mode opts of None \<Rightarrow> Docker | Some m \<Rightarrow> m),
      process = None, lineBuffer = [], isReady = False, frameWriter = None,
      emitted = [], files = fs, issued = []\<rparr>"

definition emit :: "'n notification \<Rightarrow> 'n BridgeManager \<Rightarrow> 'n BridgeManager" where
  "emit n st = st\<lparr>emitted := emitted st @ [n]\<rparr>"

definition emit_status :: "jsstring \<Rightarrow> 'n BridgeManager \<Rightarrow> 'n BridgeManager" where
  "emit_status text st = emit (NStatus (Some (JString text))) st"

definition running :: "'n BridgeManager \<Rightarrow> bool" where
  "running st \<longleftrightarrow> process st \<noteq> None \<and> isReady st"

subsection \<open>Decoding the bridge's standard output\<close>

text \<open>
  \<^verbatim>\<open>handleMessage\<close>; \<open>None\<close> is a \<^verbatim>\<open>TypeError\<close> thrown before anything was emitted,
  which the \<^verbatim>\<open>try\<close> in \<^verbatim>\<open>processLines\<close> catches.
\<close>

definition handleMessage :: "'n json \<Rightarrow> 'n BridgeManager \<Rightarrow> 'n BridgeManager option" where
  "handleMessage message st =
     (case getProperty (Some message) (ascii ''type'') of
        None \<Rightarrow> None
      | Some ty \<Rightarrow>
          (case getProperty (Some message) (ascii ''data'') of
             None \<Rightarrow> None
           | Some data \<Rightarrow>
               if ty = Some (JString (ascii ''ready'')) then Some (emit NReady (st\<lparr>isReady := True\<rparr>))
               else if ty = Some (JString (ascii ''focus'')) then Some (emit (NFocus data) st)
               else if ty = Some (JString (ascii ''metrics'')) then Some (emit (NMetrics data) st)
               else if ty = Some (JString (ascii ''edge'')) then Some (emit (NEdge data) st)
               else if ty = Some (JString (ascii ''status'')) then
                 map_option (\<lambda>v. emit (NStatus v) st) (getProperty data (ascii ''status''))
               else if ty = Some (JString (ascii ''error'')) then
                 map_option (\<lambda>v. emit (NBridgeError v) st) (getProperty data (ascii ''message''))
               else Some st))"

text \<open>One round of the loop in \<^verbatim>\<open>processLines\<close>, then the method itself.\<close>

definition processLine ::
  "(jsstring \<Rightarrow> 'n json option) \<Rightarrow> jsstring \<Rightarrow> 'n BridgeManager \<Rightarrow> 'n BridgeManager" where
  "processLine parse line st =
     (let trimmed = trim line in
      if trimmed = [] then st
      else (case parse trimmed of
              None \<Rightarrow> st
            | Some message \<Rightarrow>
                (case handleMessage message st of None \<Rightarrow> st | Some st' \<Rightarrow> st')))"

definition processLines ::
  "(jsstring \<Rightarrow> 'n json option) \<Rightarrow> 'n BridgeManager \<Rightarrow> 'n BridgeManager" where
  "processLines parse st =
     (case pop (split_newline (lineBuffer st)) of (last_line, lines) \<Rightarrow>
        foldl (\<lambda>s line. processLine parse line s)
          (st\<lparr>lineBuffer := (case last_line of None \<Rightarrow> [] | Some l \<Rightarrow> l)\<rparr>) lines)"

text \<open>The handlers attached to the spawned process.\<close>

definition onStdoutData ::
  "(jsstring \<Rightarrow> 'n json option) \<Rightarrow> bytes \<Rightarrow> 'n BridgeManager \<Rightarrow> 'n BridgeManager" where
  "onStdoutData parse chunk st =
     processLines parse (st\<lparr>lineBuffer := lineBuffer st @ Buffer_toString chunk\<rparr>)"

definition onStderrData :: "bytes \<Rightarrow> 'n BridgeManager \<Rightarrow> 'n BridgeManager" where
  "onStderrData chunk st = st"

definition onClose :: "int option \<Rightarrow> 'n BridgeManager \<Rightarrow> 'n BridgeManager" where
  "onClose code st = emit (NClose code) (st\<lparr>process := None, isReady := False\<rparr>)"

definition onError :: "jsstring \<Rightarrow> 'n BridgeManager \<Rightarrow> 'n BridgeManager" where
  "onError err st = emit (NError err) st"

subsection \<open>Starting\<close>

text \<open>
  What \<^verbatim>\<open>start\<close> finds outside the manager when it is called: the answers of the
  docker daemon (\<^verbatim>\<open>docker info\<close>, \<^verbatim>\<open>docker image inspect\<close>), the directory
  \<^verbatim>\<open>findProjectRoot\<close> finds (\<open>None\<close> when it throws), the output and the end of an
  image build, the paths that exist, \<^verbatim>\<open>path.join\<close> of the platform, and the candidate
  paths of the native binary that come from the environment and the installation.
\<close>

datatype build_outcome = BuildClosed "int option" | BuildSpawnError jsstring

record start_env =
  dockerAvailable :: bool
  imageBuilt :: bool
  projectRoot :: "jsstring option"
  buildStdout :: "bytes list"
  buildOutcome :: build_outcome
  existsSync :: "jsstring \<Rightarrow> bool"
  pathJoin :: "jsstring list \<Rightarrow> jsstring"
  envBridgePath :: "jsstring option"
  devBridgePath :: jsstring
  resourcesBridgePath :: jsstring
  tmpFrames :: jsstring

datatype start_error =
    AlreadyRunning
  | DockerUnavailable
  | ProjectRootNotFound
  | DockerBuildFailed "int option"
  | DockerBuildError jsstring
  | BinaryNotFound "jsstring list"

definition onBuildStdout :: "bytes \<Rightarrow> 'n BridgeManager \<Rightarrow> 'n BridgeManager" where
  "onBuildStdout chunk st =
     (let text = trim (Buffer_toString chunk) in
      if text = [] then st
      else (let lastLine = (case fst (pop (split_newline text)) of
                              None \<Rightarrow> text
                            | Some l \<Rightarrow> if l = [] then text else l)
            in emit_status (ascii ''Building: '' @ take 100 lastLine) st))"

definition buildImage :: "start_env \<Rightarrow> 'n BridgeManager \<Rightarrow> start_error option \<times> 'n BridgeManager" where
  "buildImage env st =
     (if imageBuilt env then (None, emit_status (ascii ''Docker image already built'') st)
      else (case projectRoot env of
              None \<Rightarrow> (Some ProjectRootNotFound, st)
            | Some root \<Rightarrow>
                (let st0 = emit_status
                       (ascii ''Building Docker image (first run '' @ [0x2014]
                          @ ascii '' may take a few minutes)...'') st;
                     st1 = st0\<lparr>issued := issued st0 @
                       [SpawnDockerBuild
                          [ascii ''build'', ascii ''--platform'', ascii ''linux/amd64'',
                           ascii ''-t'', dockerImage st0, ascii ''-f'',
                           pathJoin env [root, ascii ''bridge'', ascii ''Dockerfile''], root]]\<rparr>;
                     st2 = foldl (\<lambda>s chunk. onBuildStdout chunk s) st1 (buildStdout env)
                 in (case buildOutcome env of
                       BuildSpawnError msg \<Rightarrow> (Some (DockerBuildError msg), st2)
                     | BuildClosed code \<Rightarrow>
                         if code = Some 0
                         then (None, emit_status (ascii ''Docker image built successfully'') st2)
                         else (Some (DockerBuildFailed code), st2)))))"

definition findBridgePath :: "start_env \<Rightarrow> 'n BridgeManagerOptions \<Rightarrow> start_error + jsstring" where
  "findBridgePath env opts =
     (let candidates =
            map the (filter (\<lambda>c. c \<noteq> None \<and> c \<noteq> Some [])
              [bridgePath opts, envBridgePath env,
               Some (devBridgePath env), Some (resourcesBridgePath env)])
      in (case find (existsSync env) candidates of
            None \<Rightarrow> Inl (BinaryNotFound candidates)
          | Some candidate \<Rightarrow> Inr candidate))"

text \<open>One conditional \<^verbatim>\<open>args.push\<close> of a flag with an interpolated number.\<close>

definition push_if_defined ::
  "jsstring \<Rightarrow> ('n \<Rightarrow> jsstring) \<Rightarrow> 'n option \<Rightarrow> jsstring list \<Rightarrow> jsstring list" where
  "push_if_defined flag numStr v args =
     (case v of None \<Rightarrow> args | Some x \<Rightarrow> args @ [flag @ numStr x])"

definition addThresholdArgs ::
  "('n \<Rightarrow> jsstring) \<Rightarrow> 'n BridgeManagerOptions \<Rightarrow> jsstring list \<Rightarrow> jsstring list" where
  "addThresholdArgs numStr opts args =
     push_if_defined (ascii ''--breathing_threshold='') numStr (breathingThreshold opts)
       (push_if_defined (ascii ''--pulse_threshold='') numStr (pulseThreshold opts)
          (push_if_defined (ascii ''--blink_threshold='') numStr (blinkThreshold opts)
             (push_if_defined (ascii ''--gaze_threshold='') numStr (gazeThreshold opts) args)))"

definition startDocker ::
  "('n \<Rightarrow> jsstring) \<Rightarrow> start_env \<Rightarrow> 'n BridgeManager \<Rightarrow> start_error option \<times> 'n BridgeManager" where
  "startDocker numStr env st =
     (if \<not> dockerAvailable env then (Some DockerUnavailable, st)
      else (case buildImage env st of
              (Some err, st1) \<Rightarrow> (Some err, st1)
            | (None, st1) \<Rightarrow>
                (let st2 = st1\<lparr>issued := issued st1 @ [ExecDockerRm (dockerImage st1)]\<rparr>;
                     (fw, fs) = init (FrameWriter_new (tmpFrames env) (opt_frameDir (options st2)),
                                      files st2);
                     st3 = st2\<lparr>frameWriter := Some fw, files := fs\<rparr>;
                     args = addThresholdArgs numStr (options st3)
                       [ascii ''run'', ascii ''--rm'', ascii ''--platform'', ascii ''linux/amd64'',
                        ascii ''--name'', dockerImage st3,
                        ascii ''--dns'', ascii ''8.8.8.8'', ascii ''--dns'', ascii ''8.8.4.4'',
                        ascii ''-v'', frameDir fw @ ascii '':/frames'',
                        ascii ''-e'', ascii ''SMARTSPECTRA_API_KEY='' @ apiKey (options st3),
                        dockerImage st3,
                        ascii ''--mode=server'',
                        ascii ''--file_stream_path='' @ containerFileStreamPath,
                        ascii ''--erase_read_files=true'',
                        ascii ''--rescan_delay_ms=5''];
                     st4 = emit_status (ascii ''Starting SmartSpectra container...'') st3
                 in (None, st4\<lparr>process := Some \<lparr>spawnfile = ascii ''docker'', spawnargs = args\<rparr>\<rparr>))))"

definition startLocal ::
  "('n \<Rightarrow> jsstring) \<Rightarrow> start_env \<Rightarrow> 'n BridgeManager \<Rightarrow> start_error option \<times> 'n BridgeManager" where
  "startLocal numStr env st =
     (case findBridgePath env (options st) of
        Inl err \<Rightarrow> (Some err, st)
      | Inr path \<Rightarrow>
          (let opts = options st;
               args = addThresholdArgs numStr opts
                 (push_if_defined (ascii ''--capture_height='') numStr (captureHeight opts)
                    (push_if_defined (ascii ''--capture_width='') numStr (captureWidth opts)
                       (push_if_defined (ascii ''--camera_device_index='') numStr (cameraIndex opts)
                          [ascii ''--api_key='' @ apiKey opts])))
           in (None, st\<lparr>process := Some \<lparr>spawnfile = path, spawnargs = args\<rparr>\<rparr>)))"

text \<open>
  \<^verbatim>\<open>start\<close>: the error it throws, if any, and the state it leaves. The call is taken
  as one step (nothing else runs while it awaits the image build).
\<close>

definition start ::
  "('n \<Rightarrow> jsstring) \<Rightarrow> start_env \<Rightarrow> 'n BridgeManager \<Rightarrow> start_error option \<times> 'n BridgeManager" where
  "start numStr env st =
     (if process st \<noteq> None then (Some AlreadyRunning, st)
      else if mode st = Docker then startDocker numStr env st
      else startLocal numStr env st)"

subsection \<open>Stopping\<close>

text \<open>
  \<^verbatim>\<open>stop\<close> has no throwing path: each call that can fail sits in a \<^verbatim>\<open>try\<close>. The
  callback it schedules in local mode is \<open>onForceKillTimer\<close>.
\<close>

definition stop :: "'n BridgeManager \<Rightarrow> 'n BridgeManager" where
  "stop st =
     (let st1 = (case frameWriter st of
                   None \<Rightarrow> st
                 | Some fw \<Rightarrow> st\<lparr>files := writeEndOfStream fw (files st)\<rparr>);
          st2 = (case process st1 of
                   None \<Rightarrow> st1
                 | Some _ \<Rightarrow>
                     if mode st1 = Docker
                     then st1\<lparr>issued := issued st1 @ [ExecDockerStop (dockerImage st1)]\<rparr>
                     else st1\<lparr>issued := issued st1 @ [Kill SIGTERM, SetTimeout 5000]\<rparr>)
      in (case frameWriter st2 of
            None \<Rightarrow> st2
          | Some fw \<Rightarrow> st2\<lparr>frameWriter := None, files := snd (cleanup (fw, files st2))\<rparr>))"

definition onForceKillTimer :: "'n BridgeManager \<Rightarrow> 'n BridgeManager" where
  "onForceKillTimer st =
     (case process st of None \<Rightarrow> st | Some _ \<Rightarrow> st\<lparr>issued := issued st @ [Kill SIGKILL]\<rparr>)"

subsection \<open>Histories\<close>

text \<open>
  What can happen to a manager, one event at a time: a call of a public method, or a
  callback from the event loop. The handlers of a process only run while that process is
  the manager's (\<^verbatim>\<open>close\<close> is the last event of a process).
\<close>

datatype event =
    CallStart start_env
  | CallStop
  | StdoutData bytes
  | StderrData bytes
  | ProcessClose "int option"
  | ProcessError jsstring
  | ForceKillTimer

definition whileProcess ::
  "('n BridgeManager \<Rightarrow> 'n BridgeManager) \<Rightarrow> 'n BridgeManager \<Rightarrow> 'n BridgeManager" where
  "whileProcess handler st = (if process st = None then st else handler st)"

fun step ::
  "(jsstring \<Rightarrow> 'n json option) \<Rightarrow> ('n \<Rightarrow> jsstring) \<Rightarrow> event \<Rightarrow> 'n BridgeManager \<Rightarrow> 'n BridgeManager" where
  "step parse numStr (CallStart env) st = snd (start numStr env st)"
| "step parse numStr CallStop st = stop st"
| "step parse numStr (StdoutData chunk) st = whileProcess (onStdoutData parse chunk) st"
| "step parse numStr (StderrData chunk) st = whileProcess (onStderrData chunk) st"
| "step parse numStr (ProcessClose code) st = whileProcess (onClose code) st"
| "step parse numStr (ProcessError err) st = whileProcess (onError err) st"
| "step parse numStr ForceKillTimer st = onForceKillTimer st"

definition run ::
  "(jsstring \<Rightarrow> 'n json option) \<Rightarrow> ('n \<Rightarrow> jsstring) \<Rightarrow> event list \<Rightarrow> 'n BridgeManager \<Rightarrow> 'n BridgeManager" where
  "run parse numStr evs st = foldl (\<lambda>s ev. step parse numStr ev s) st evs"

section \<open>Notions used to state the properties\<close>

text \<open>
  A valid timestamp is a non-negative integer of microseconds that fits the sixteen
  digits of the file name. Every non-negative integer a double holds exactly up to
  \<open>2\<^sup>5\<^sup>3 - 1 = 9007199254740991\<close> is one; \<^verbatim>\<open>Date.now() * 1000\<close> is one until the
  year 2286.
\<close>

definition valid_timestamp :: "int \<Rightarrow> bool" where
  "valid_timestamp t \<longleftrightarrow> 0 \<le> t \<and> t < 10 ^ 16"

text \<open>The digits of \<open>n\<close> in exactly \<open>k\<close> places.\<close>

fun fixed_digits :: "nat \<Rightarrow> nat \<Rightarrow> jsstring" where
  "fixed_digits 0 n = []"
| "fixed_digits (Suc k) n = fixed_digits k (n div 10) @ [48 + n mod 10]"

text \<open>Feeding the chunks to the stdout handler one at a time.\<close>

definition feed ::
  "(jsstring \<Rightarrow> 'n json option) \<Rightarrow> bytes list \<Rightarrow> 'n BridgeManager \<Rightarrow> 'n BridgeManager" where
  "feed parse chunks st = foldl (\<lambda>s chunk. onStdoutData parse chunk s) st chunks"

text \<open>The stdout handler on the text a chunk has been decoded to.\<close>

definition onText ::
  "(jsstring \<Rightarrow> 'n json option) \<Rightarrow> jsstring \<Rightarrow> 'n BridgeManager \<Rightarrow> 'n BridgeManager" where
  "onText parse text st = processLines parse (st\<lparr>lineBuffer := lineBuffer st @ text\<rparr>)"

text \<open>A chunk that ends where a UTF-8 sequence ends: the decoder is left with nothing pending.\<close>

definition complete_utf8 :: "bytes \<Rightarrow> bool" where
  "complete_utf8 chunk \<longleftrightarrow> snd (utf8_run Idle chunk) = Idle"

text \<open>
  The event records of the specification's dispatch table: an object with a type tag
  among \<^verbatim>\<open>ready\<close>, \<^verbatim>\<open>status\<close>, \<^verbatim>\<open>focus\<close>, \<^verbatim>\<open>metrics\<close>, \<^verbatim>\<open>edge\<close>, \<^verbatim>\<open>error\<close>
  and a data object, and the notification each one stands for (a status record carries
  a status string, an error record a message string). This definition follows the
  specification, not \<^verbatim>\<open>handleMessage\<close>.
\<close>

definition event_notification :: "'n json \<Rightarrow> 'n notification option" where
  "event_notification message =
     (case message of
        JObject kvs \<Rightarrow>
          (case (map_of kvs (ascii ''type''), map_of kvs (ascii ''data'')) of
             (Some (JString tag), Some (JObject payload)) \<Rightarrow>
               if tag = ascii ''ready'' then Some NReady
               else if tag = ascii ''focus'' then Some (NFocus (Some (JObject payload)))
               else if tag = ascii ''metrics'' then Some (NMetrics (Some (JObject payload)))
               else if tag = ascii ''edge'' then Some (NEdge (Some (JObject payload)))
               else if tag = ascii ''status'' then
                 (case map_of payload (ascii ''status'') of
                    Some (JString text) \<Rightarrow> Some (NStatus (Some (JString text)))
                  | _ \<Rightarrow> None)
               else if tag = ascii ''error'' then
                 (case map_of payload (ascii ''message'') of
                    Some (JString text) \<Rightarrow> Some (NBridgeError (Some (JString text)))
                  | _ \<Rightarrow> None)
               else None
           | _ \<Rightarrow> None)
      | _ \<Rightarrow> None)"

text \<open>
  A ready event has been observed for the current session: among the notifications
  emitted so far, a ready notification comes after the last close notification (a session
  ends with its close notification).
\<close>

definition ready_observed :: "'n notification list \<Rightarrow> bool" where
  "ready_observed log =
     foldl (\<lambda>seen n. case n of NReady \<Rightarrow> True | NClose _ \<Rightarrow> False | _ \<Rightarrow> seen) False log"

text \<open>
  A line of the bridge's output that decodes to a record whose type tag is \<^verbatim>\<open>ready\<close>:
  the input that makes the manager ready.
\<close>

definition is_ready_line :: "(jsstring \<Rightarrow> 'n json option) \<Rightarrow> jsstring \<Rightarrow> bool" where
  "is_ready_line parse line \<longleftrightarrow>
     trim line \<noteq> []
     \<and> (case parse (trim line) of
          None \<Rightarrow> False
        | Some message \<Rightarrow>
            getProperty (Some message) (ascii ''type'') = Some (Some (JString (ascii ''ready''))))"

text \<open>
  A step that leaves the decode buffer and the ready flag alone and emits neither a ready
  nor a close notification.
\<close>

definition quiet :: "'n BridgeManager \<Rightarrow> 'n BridgeManager \<Rightarrow> bool" where
  "quiet st st' \<longleftrightarrow>
     lineBuffer st' = lineBuffer st \<and> isReady st' = isReady st
     \<and> ready_observed (emitted st') = ready_observed (emitted st)"

text \<open>The event in which the exit of the process is observed.\<close>

definition exit_observed :: "event \<Rightarrow> bool" where
  "exit_observed ev = (case ev of ProcessClose _ \<Rightarrow> True | _ \<Rightarrow> False)"

text \<open>An argument list contains the flag \<^verbatim>\<open>--name=...\<close>.\<close>

definition is_flag :: "string \<Rightarrow> jsstring \<Rightarrow> bool" where
  "is_flag name arg \<longleftrightarrow> take (length name + 3) arg = ascii ''--'' @ ascii name @ ascii ''=''"

definition has_flag :: "string \<Rightarrow> jsstring list \<Rightarrow> bool" where
  "has_flag name args = list_ex (is_flag name) args"

text \<open>A string that begins like a long option.\<close>

definition flag_like :: "jsstring \<Rightarrow> bool" where
  "flag_like s \<longleftrightarrow> take 2 s = ascii ''--''"

subsection \<open>Concrete inputs for the examples\<close>

text \<open>The options \<^verbatim>\<open>main.ts\<close> constructs the manager with.\<close>

definition main_options :: "jsstring \<Rightarrow> 'n BridgeManagerOptions" where
  "main_options key =
     \<lparr>apiKey = key, opt_mode = Some Docker, opt_dockerImage = None, opt_frameDir = None,
      bridgePath = None, cameraIndex = None, captureWidth = None, captureHeight = None,
      gazeThreshold = None, blinkThreshold = None, pulseThreshold = None,
      breathingThreshold = None\<rparr>"

definition main_manager :: "int BridgeManager" where
  "main_manager = BridgeManager_new (main_options (ascii ''key'')) Map.empty"

text \<open>A machine with docker running, the image built, and a native binary under \<^verbatim>\<open>/opt\<close>.\<close>

definition sample_env :: start_env where
  "sample_env =
     \<lparr>dockerAvailable = True, imageBuilt = True, projectRoot = None, buildStdout = [],
      buildOutcome = BuildClosed (Some 0),
      existsSync = (\<lambda>path. path = ascii ''/opt/focus_bridge''),
      pathJoin = (\<lambda>parts. foldr (\<lambda>part rest. if rest = [] then part else part @ ascii ''/'' @ rest)
                    parts []),
      envBridgePath = Some (ascii ''/opt/focus_bridge''),
      devBridgePath = ascii ''/app/bridge/build/focus_bridge'',
      resourcesBridgePath = ascii ''focus_bridge'',
      tmpFrames = ascii ''/tmp/focus-wizard-frames''\<rparr>"

text \<open>
  \<^verbatim>\<open>JSON.parse\<close> on the lines of the examples: it reads an event object written without
  white space or escapes whose data object is empty or has one string field,
  \<^verbatim>\<open>{"type":"T","data":{}}\<close> or \<^verbatim>\<open>{"type":"T","data":{"K":"V"}}\<close>, and answers
  \<open>None\<close> to every other text. It is applied below only to texts of these two shapes
  and to texts that are not JSON at all, where it agrees with the built-in.
\<close>

definition strip_prefix :: "jsstring \<Rightarrow> jsstring \<Rightarrow> jsstring option" where
  "strip_prefix p s = (if take (length p) s = p then Some (drop (length p) s) else None)"

definition json_plain :: "nat \<Rightarrow> bool" where
  "json_plain c \<longleftrightarrow> c \<noteq> 34 \<and> c \<noteq> 92 \<and> 32 \<le> c"

definition parse_sample :: "jsstring \<Rightarrow> 'n json option" where
  \<open>parse_sample s =
     (case strip_prefix (ascii ''{"type":"'') s of
        None \<Rightarrow> None
      | Some r1 \<Rightarrow>
          (case strip_prefix (ascii ''","data":{'') (dropWhile json_plain r1) of
             None \<Rightarrow> None
           | Some r2 \<Rightarrow>
               if r2 = ascii ''}}'' then
                 Some (JObject [(ascii ''type'', JString (takeWhile json_plain r1)),
                                (ascii ''data'', JObject [])])
               else
                 (case strip_prefix (ascii ''"'') r2 of
                    None \<Rightarrow> None
                  | Some r3 \<Rightarrow>
                      (case strip_prefix (ascii ''":"'') (dropWhile json_plain r3) of
                         None \<Rightarrow> None
                       | Some r4 \<Rightarrow>
                           if dropWhile json_plain r4 = ascii ''"}}'' then
                             Some (JObject
                               [(ascii ''type'', JString (takeWhile json_plain r1)),
                                (ascii ''data'',
                                 JObject [(takeWhile json_plain r3,
                                           JString (takeWhile json_plain r4))])])
                           else None))))\<close>

definition ready_line :: jsstring where
  \<open>ready_line = ascii ''{"type":"ready","data":{}}''\<close>

definition status_head :: jsstring where
  \<open>status_head = ascii ''{"type":"status","data":{"status":"''\<close>

definition status_tail :: jsstring where
  \<open>status_tail = ascii ''"}}''\<close>

text \<open>Managers with some of the optional numbers set, one for each backend.\<close>

definition tuned_manager :: "int BridgeManager" where
  "tuned_manager =
     BridgeManager_new ((main_options (ascii ''key''))\<lparr>gazeThreshold := Some 5\<rparr>) Map.empty"

definition local_manager :: "int BridgeManager" where
  "local_manager =
     BridgeManager_new
       ((main_options (ascii ''key''))
          \<lparr>opt_mode := Some Local, cameraIndex := Some 0, captureWidth := Some 640,
           pulseThreshold := Some 3\<rparr>) Map.empty"

text \<open>
  A session just started on that machine, and the same session once its bridge has
  announced that it is ready.
\<close>

definition started_session :: "int BridgeManager" where
  "started_session = snd (start Number_toString sample_env main_manager)"

definition ready_session :: "int BridgeManager" where
  "ready_session =
     run parse_sample Number_toString [CallStart sample_env, StdoutData (ready_line @ [10])]
       main_manager"

section \<open>Frame file names\<close>

lemma length_fixed_digits [simp]: "length (fixed_digits k n) = k"
  by (induction k arbitrary: n) auto

lemma fixed_digits_zero: "fixed_digits k 0 = replicate k 48"
  by (induction k) (auto simp: replicate_append_same)

lemma length_nat_digits: "0 < k \<Longrightarrow> n < 10 ^ k \<Longrightarrow> length (nat_digits n) \<le> k"
proof (induction k arbitrary: n)
  case 0
  then show ?case by simp
next
  case (Suc k)
  show ?case
  proof (cases "n < 10")
    case True
    then show ?thesis by (simp add: nat_digits.simps)
  next
    case False
    with Suc.prems have k: "0 < k" by (cases k) auto
    from Suc.prems have "n div 10 < 10 ^ k"
      by (simp add: less_mult_imp_div_less mult.commute)
    with Suc.IH k have "length (nat_digits (n div 10)) \<le> k" by blast
    with False show ?thesis by (subst nat_digits.simps) simp
  qed
qed

lemma pad_nat_digits:
  "0 < k \<Longrightarrow> n < 10 ^ k \<Longrightarrow>
   replicate (k - length (nat_digits n)) 48 @ nat_digits n = fixed_digits k n"
proof (induction k arbitrary: n)
  case 0
  then show ?case by simp
next
  case (Suc k)
  show ?case
  proof (cases "n < 10")
    case True
    then show ?thesis by (simp add: nat_digits.simps fixed_digits_zero)
  next
    case False
    with Suc.prems have k: "0 < k" by (cases k) auto
    from Suc.prems have lt: "n div 10 < 10 ^ k"
      by (simp add: less_mult_imp_div_less mult.commute)
    have len: "length (nat_digits (n div 10)) \<le> k"
      using length_nat_digits [OF k lt] .
    have eq: "nat_digits n = nat_digits (n div 10) @ [48 + n mod 10]"
      using False by (subst nat_digits.simps) simp
    have "Suc k - length (nat_digits n) = k - length (nat_digits (n div 10))"
      using len by (simp add: eq)
    then show ?thesis using Suc.IH [OF k lt] by (simp add: eq)
  qed
qed

text \<open>On numbers of the same width, the order of the digit strings is the order of the numbers.\<close>

lemma fixed_digits_less:
  "n < m \<Longrightarrow> m < 10 ^ k \<Longrightarrow> fixed_digits k n < fixed_digits k m"
proof (induction k arbitrary: n m)
  case 0
  then show ?case by simp
next
  case (Suc k)
  from Suc.prems have lt: "m div 10 < 10 ^ k"
    by (simp add: less_mult_imp_div_less mult.commute)
  show ?case
  proof (cases "n div 10 < m div 10")
    case True
    then have "fixed_digits k (n div 10) < fixed_digits k (m div 10)"
      using Suc.IH lt by blast
    then show ?thesis
      by (simp add: list_less_def lexord_sufI)
  next
    case False
    with Suc.prems have eq: "n div 10 = m div 10"
      by (metis div_le_mono le_neq_implies_less less_imp_le_nat)
    with Suc.prems have "n mod 10 < m mod 10"
      by (metis add_less_cancel_left mult_div_mod_eq)
    then show ?thesis
      by (simp add: eq list_less_def
          lexord_append_left_rightI [where x = "[]" and y = "[]", simplified])
  qed
qed

lemma padStart_timestamp:
  assumes "valid_timestamp t"
  shows "padStart 16 (ascii ''0'') (Number_toString t) = fixed_digits 16 (nat t)"
proof -
  from assms have t: "0 \<le> t" "t < 10 ^ 16" by (simp_all add: valid_timestamp_def)
  have lt: "nat t < 10 ^ 16" using t by (simp add: nat_less_iff)
  have len: "length (nat_digits (nat t)) \<le> 16"
    using length_nat_digits [of 16 "nat t"] lt by simp
  have pad: "replicate (16 - length (nat_digits (nat t))) 48 @ nat_digits (nat t)
      = fixed_digits 16 (nat t)"
    using pad_nat_digits [of 16 "nat t"] lt by simp
  show ?thesis
  proof (cases "length (nat_digits (nat t)) = 16")
    case True
    with pad show ?thesis using t by (simp add: padStart_def Number_toString_def)
  next
    case False
    with len have "\<not> 16 \<le> length (nat_digits (nat t))" by simp
    moreover have "concat (replicate j (ascii ''0'')) = replicate j 48" for j
      by (induction j) (simp_all add: ascii_def)
    ultimately show ?thesis using t pad
      by (simp add: padStart_def Number_toString_def ascii_def)
  qed
qed

lemma frameFilename_mono:
  assumes "valid_timestamp t1" "valid_timestamp t2" "t1 < t2"
  shows "frameFilename t1 < frameFilename t2"
proof -
  from assms have "nat t1 < nat t2" "nat t2 < 10 ^ 16"
    by (simp_all add: valid_timestamp_def nat_less_iff)
  then have "fixed_digits 16 (nat t1) < fixed_digits 16 (nat t2)"
    by (rule fixed_digits_less)
  then have "(fixed_digits 16 (nat t1) @ ascii ''.jpg'', fixed_digits 16 (nat t2) @ ascii ''.jpg'')
      \<in> lexord {(u, v). u < v}"
    by (simp add: list_less_def lexord_sufI)
  then show ?thesis
    using assms
    by (simp add: frameFilename_def padStart_timestamp list_less_def lexord_append_leftI)
qed

text \<open>
  C1. For valid microsecond timestamps, the file names \<^verbatim>\<open>writeFrame\<close> builds
  (\<^verbatim>\<open>frame\<close>, the timestamp padded with zeros to sixteen digits, \<^verbatim>\<open>.jpg\<close>) are ordered
  as strings exactly as the timestamps are ordered as numbers: \<open>t1 < t2\<close> gives
  \<open>filename t1 < filename t2\<close>, and no other pair of valid timestamps does, so that a
  listing of the directory by name is in capture order.
\<close>

theorem frame_filename_order:
  assumes "valid_timestamp t1" and "valid_timestamp t2"
  shows "t1 < t2 \<longleftrightarrow> frameFilename t1 < frameFilename t2"
proof
  assume "t1 < t2"
  with assms show "frameFilename t1 < frameFilename t2" by (rule frameFilename_mono)
next
  assume less: "frameFilename t1 < frameFilename t2"
  show "t1 < t2"
  proof (rule ccontr)
    assume "\<not> t1 < t2"
    then consider "t1 = t2" | "t2 < t1" by linarith
    then show False
    proof cases
      case 1
      with less show False by simp
    next
      case 2
      with assms have "frameFilename t2 < frameFilename t1" by (intro frameFilename_mono)
      with less show False by simp
    qed
  qed
qed

theorem frame_filename_order_witness:
  "valid_timestamp 500 \<and> valid_timestamp 1000 \<and> (500::int) < 1000
   \<and> frameFilename 500 < frameFilename 1000"
proof -
  have v: "valid_timestamp 500" "valid_timestamp 1000"
    by (simp_all add: valid_timestamp_def)
  from frame_filename_order [OF v] v show ?thesis by simp
qed

text \<open>
  The scenario of the specification: frames written at 1000, 500 and 1500 microseconds.
\<close>

lemma replicate_unfold_numeral: "replicate (numeral k) c = c # replicate (numeral k - 1) c"
proof -
  obtain m :: nat where m: "numeral k = Suc m"
    by (metis numeral_eq_Suc)
  show ?thesis unfolding m by simp
qed

lemma frame_filename_examples:
  "frameFilename 500 = ascii ''frame0000000000000500.jpg''"
  "frameFilename 1000 = ascii ''frame0000000000001000.jpg''"
  "frameFilename 1500 = ascii ''frame0000000000001500.jpg''"
  by (simp_all add: frameFilename_def padStart_def Number_toString_def nat_digits.simps ascii_def
      replicate_unfold_numeral)

text \<open>
  Where validity ends: from \<open>10\<^sup>1\<^sup>6\<close> microseconds on (the year 2286) the number has
  seventeen digits, \<^verbatim>\<open>padStart\<close> adds nothing, and the name sorts before those of
  earlier frames.
\<close>

lemma frame_filename_seventeen_digits:
  "frameFilename 10000000000000000 = ascii ''frame10000000000000000.jpg''"
  "frameFilename 10000000000000000 < frameFilename 9999999999999999"
  by (simp_all add: frameFilename_def padStart_def Number_toString_def nat_digits.simps ascii_def
      replicate_unfold_numeral)

section \<open>Writing after cleanup\<close>

lemma writeFrame_inactive: "\<not> active fw \<Longrightarrow> writeFrame t jpegData (fw, fs) = (fw, fs)"
  by (simp add: writeFrame_def)

text \<open>
  C8. After \<^verbatim>\<open>cleanup()\<close> the channel is inactive, and \<^verbatim>\<open>writeFrame\<close> with any
  timestamp and any bytes returns at once: it has no throwing path, the channel
  (directory path, frame counter, active flag) and the file system are as \<^verbatim>\<open>cleanup\<close>
  left them, so no file is written and the removed directory stays removed.
\<close>

theorem writeFrame_after_cleanup:
  "writeFrame t jpegData (cleanup (fw, fs)) = cleanup (fw, fs)
   \<and> \<not> active (fst (cleanup (fw, fs)))
   \<and> frameCount (fst (writeFrame t jpegData (cleanup (fw, fs)))) = frameCount fw
   \<and> frameDir (fst (writeFrame t jpegData (cleanup (fw, fs)))) = frameDir fw
   \<and> snd (writeFrame t jpegData (cleanup (fw, fs))) (frameDir fw) = None"
  by (simp add: cleanup_def writeFrame_def)

section \<open>The line codec\<close>

lemma split_newline_not_Nil [simp]: "split_newline s \<noteq> []"
  by (induction s) (auto split: list.splits)

lemma split_newline_no_newline: "10 \<notin> set s \<Longrightarrow> split_newline s = [s]"
  by (induction s) auto

lemma split_newline_append:
  "split_newline (a @ b) =
     butlast (split_newline a) @ (last (split_newline a) @ hd (split_newline b)) # tl (split_newline b)"
proof (induction a)
  case Nil
  then show ?case by (cases "split_newline b") auto
next
  case (Cons c a)
  then show ?case
    by (cases "split_newline a"; cases "split_newline (a @ b)") (auto split: list.splits if_splits)
qed

lemma last_split_newline: "10 \<notin> set (last (split_newline s))"
  by (induction s) (auto split: list.splits)

lemma handleMessage_cases:
  assumes "handleMessage m st = Some st'"
  shows "st' = st \<or> st' = emit NReady (st\<lparr>isReady := True\<rparr>)
     \<or> (\<exists>v. st' = emit (NFocus v) st \<or> st' = emit (NMetrics v) st \<or> st' = emit (NEdge v) st
            \<or> st' = emit (NStatus v) st \<or> st' = emit (NBridgeError v) st)"
proof -
  obtain ty data where ty: "getProperty (Some m) (ascii ''type'') = Some ty"
    and data: "getProperty (Some m) (ascii ''data'') = Some data"
    using assms unfolding handleMessage_def by (simp split: option.splits)
  show ?thesis
    using assms unfolding handleMessage_def ty data option.case
    by (simp split: if_splits) blast+
qed

lemma handleMessage_lineBuffer_update:
  "handleMessage m (st\<lparr>lineBuffer := b\<rparr>) = map_option (\<lambda>s. s\<lparr>lineBuffer := b\<rparr>) (handleMessage m st)"
proof (cases "getProperty (Some m) (ascii ''type'')")
  case None
  then show ?thesis by (simp add: handleMessage_def)
next
  case ty: (Some ty)
  show ?thesis
  proof (cases "getProperty (Some m) (ascii ''data'')")
    case None
    then show ?thesis by (simp add: handleMessage_def ty)
  next
    case (Some data)
    then show ?thesis
      unfolding handleMessage_def ty Some option.case
      by (cases "getProperty data (ascii ''status'')"; cases "getProperty data (ascii ''message'')")
        (simp_all add: emit_def)
  qed
qed

lemma lineBuffer_handleMessage:
  "handleMessage m st = Some st' \<Longrightarrow> lineBuffer st' = lineBuffer st"
  by (drule handleMessage_cases) (auto simp: emit_def)

lemma lineBuffer_processLine [simp]:
  "lineBuffer (processLine parse line st) = lineBuffer st"
  by (simp add: processLine_def Let_def lineBuffer_handleMessage split: option.splits)

lemma lineBuffer_foldl_processLine [simp]:
  "lineBuffer (foldl (\<lambda>s line. processLine parse line s) st ls) = lineBuffer st"
  by (induction ls arbitrary: st) auto

lemma processLine_lineBuffer_update:
  "processLine parse line (st\<lparr>lineBuffer := b\<rparr>) = (processLine parse line st)\<lparr>lineBuffer := b\<rparr>"
  by (simp add: processLine_def Let_def handleMessage_lineBuffer_update split: option.splits)

lemma foldl_processLine_lineBuffer_update:
  "foldl (\<lambda>s line. processLine parse line s) (st\<lparr>lineBuffer := b\<rparr>) ls
     = (foldl (\<lambda>s line. processLine parse line s) st ls)\<lparr>lineBuffer := b\<rparr>"
  by (induction ls arbitrary: st) (auto simp: processLine_lineBuffer_update)

text \<open>What the stdout handler does with the decoded text of a chunk.\<close>

lemma onStdoutData_onText: "onStdoutData parse chunk st = onText parse (Buffer_toString chunk) st"
  by (simp add: onStdoutData_def onText_def)

lemma onText_eq:
  "onText parse text st =
     (foldl (\<lambda>s line. processLine parse line s) st (butlast (split_newline (lineBuffer st @ text))))
       \<lparr>lineBuffer := last (split_newline (lineBuffer st @ text))\<rparr>"
  by (simp add: onText_def processLines_def pop_def foldl_processLine_lineBuffer_update)

lemma lineBuffer_onText:
  "lineBuffer (onText parse text st) = last (split_newline (lineBuffer st @ text))"
  by (simp add: onText_eq)

text \<open>Two texts in a row are handled as their concatenation would be.\<close>

lemma onText_append: "onText parse (a @ b) st = onText parse b (onText parse a st)"
proof -
  let ?l1 = "split_newline (lineBuffer st @ a)"
  have nl: "10 \<notin> set (last ?l1)" by (rule last_split_newline)
  have l2: "split_newline (last ?l1 @ b) = (last ?l1 @ hd (split_newline b)) # tl (split_newline b)"
    using split_newline_append [of "last ?l1" b] split_newline_no_newline [OF nl] by simp
  have whole: "split_newline (lineBuffer st @ a @ b) = butlast ?l1 @ split_newline (last ?l1 @ b)"
    using split_newline_append [of "lineBuffer st @ a" b] l2 by simp
  have bl: "butlast (split_newline (lineBuffer st @ a @ b))
      = butlast ?l1 @ butlast (split_newline (last ?l1 @ b))"
    by (simp add: whole butlast_append)
  have la: "last (split_newline (lineBuffer st @ a @ b)) = last (split_newline (last ?l1 @ b))"
    by (simp add: whole)
  show ?thesis
    by (simp add: onText_eq bl la foldl_processLine_lineBuffer_update)
qed

lemma onText_Nil: "10 \<notin> set (lineBuffer st) \<Longrightarrow> onText parse [] st = st"
  by (simp add: onText_eq split_newline_no_newline)

text \<open>Feeding chunks one at a time is feeding the concatenation of their texts.\<close>

lemma feed_onText:
  "10 \<notin> set (lineBuffer st) \<Longrightarrow>
   feed parse chunks st = onText parse (concat (map Buffer_toString chunks)) st"
proof (induction chunks arbitrary: st)
  case Nil
  then show ?case by (simp add: feed_def onText_Nil)
next
  case (Cons c cs)
  have "10 \<notin> set (lineBuffer (onText parse (Buffer_toString c) st))"
    by (simp add: lineBuffer_onText last_split_newline)
  from Cons.IH [OF this] show ?case
    by (simp add: feed_def onStdoutData_onText onText_append)
qed

section \<open>Decoding chunk by chunk\<close>

lemma utf8_run_append:
  "utf8_run s (a @ b) =
     (case utf8_run s a of (out1, s1) \<Rightarrow>
        (case utf8_run s1 b of (out2, s2) \<Rightarrow> (out1 @ out2, s2)))"
  by (induction a arbitrary: s) (auto split: prod.splits)

lemma Buffer_toString_Nil [simp]: "Buffer_toString [] = []"
  by (simp add: Buffer_toString_def utf8_flush_def)

lemma Buffer_toString_append:
  "complete_utf8 a \<Longrightarrow> Buffer_toString (a @ b) = Buffer_toString a @ Buffer_toString b"
  by (auto simp: complete_utf8_def Buffer_toString_def utf8_run_append utf8_flush_def
      split: prod.splits)

lemma Buffer_toString_concat:
  "list_all complete_utf8 (butlast chunks) \<Longrightarrow>
   Buffer_toString (concat chunks) = concat (map Buffer_toString chunks)"
proof (induction chunks)
  case Nil
  then show ?case by simp
next
  case (Cons c cs)
  show ?case
  proof (cases "cs = []")
    case True
    then show ?thesis by simp
  next
    case False
    with Cons.prems have "complete_utf8 c" "list_all complete_utf8 (butlast cs)" by simp_all
    with Cons.IH show ?thesis by (simp add: Buffer_toString_append)
  qed
qed

text \<open>A chunk of ASCII bytes is complete and decodes to itself.\<close>

lemma utf8_run_ascii:
  "list_all (\<lambda>b. b < 128) chunk \<Longrightarrow> utf8_run Idle chunk = (chunk, Idle)"
  by (induction chunk) (auto simp: utf8_first_def)

lemma complete_utf8_ascii: "list_all (\<lambda>b. b < 128) chunk \<Longrightarrow> complete_utf8 chunk"
  by (simp add: complete_utf8_def utf8_run_ascii)

lemma Buffer_toString_ascii: "list_all (\<lambda>b. b < 128) chunk \<Longrightarrow> Buffer_toString chunk = chunk"
  by (simp add: Buffer_toString_def utf8_run_ascii utf8_flush_def)

section \<open>Chunk boundaries\<close>

lemmas codec_eval = feed_def onStdoutData_def processLines_def pop_def processLine_def trim_def
  isWhiteSpace_def parse_sample_def strip_prefix_def json_plain_def handleMessage_def getProperty_def
  emit_def ascii_def Buffer_toString_def utf8_first_def utf8_flush_def utf16_def
  BridgeManager_new_def main_options_def main_manager_def ready_line_def status_head_def
  status_tail_def Let_def

text \<open>
  A status line whose text is the letter U+00E9, two bytes in UTF-8, cut between the two
  bytes: each chunk is decoded by itself, so each half becomes U+FFFD.
\<close>

lemma emitted_split_inside_character:
  "emitted (feed parse_sample [status_head @ [0xC3], [0xA9] @ status_tail @ [10]] main_manager)
     = [NStatus (Some (JString [0xFFFD, 0xFFFD]))]"
  by (simp add: codec_eval)

lemma emitted_unsplit_character:
  "emitted (onStdoutData parse_sample
       (concat [status_head @ [0xC3], [0xA9] @ status_tail @ [10]]) main_manager)
     = [NStatus (Some (JString [0xE9]))]"
  by (simp add: codec_eval)

theorem chunk_split_counterexample:
  "feed parse_sample [status_head @ [0xC3], [0xA9] @ status_tail @ [10]] main_manager
   \<noteq> onStdoutData parse_sample
       (concat [status_head @ [0xC3], [0xA9] @ status_tail @ [10]]) main_manager"
proof
  assume "feed parse_sample [status_head @ [0xC3], [0xA9] @ status_tail @ [10]] main_manager
    = onStdoutData parse_sample
        (concat [status_head @ [0xC3], [0xA9] @ status_tail @ [10]]) main_manager"
  then have "emitted (feed parse_sample [status_head @ [0xC3], [0xA9] @ status_tail @ [10]]
        main_manager)
    = emitted (onStdoutData parse_sample
        (concat [status_head @ [0xC3], [0xA9] @ status_tail @ [10]]) main_manager)"
    by (rule arg_cong)
  then show False
    unfolding emitted_split_inside_character emitted_unsplit_character by simp
qed

text \<open>
  C2, amended. From a state whose decode buffer holds no line feed, and for every way of
  cutting a byte stream into chunks in which every chunk but the last ends where a UTF-8
  sequence ends (every cut of an ASCII stream is one, also in the middle of a JSON line),
  feeding the chunks one at a time leaves the manager in the same state, with the same
  notifications emitted in the same order, as feeding the whole stream as one chunk.
\<close>

theorem chunk_boundaries_invisible:
  assumes "10 \<notin> set (lineBuffer st)"
    and "list_all complete_utf8 (butlast chunks)"
  shows "feed parse chunks st = onStdoutData parse (concat chunks) st"
  using assms
  by (simp add: feed_onText onStdoutData_onText Buffer_toString_concat)

theorem chunk_boundaries_invisible_witness:
  \<open>10 \<notin> set (lineBuffer main_manager)
   \<and> list_all complete_utf8
        (butlast [ready_line @ [10] @ ascii ''{"type":"focu'',
                  ascii ''s","data":{"state":"focused"}}'' @ [10]])
   \<and> feed parse_sample
        [ready_line @ [10] @ ascii ''{"type":"focu'',
         ascii ''s","data":{"state":"focused"}}'' @ [10]] main_manager
     = onStdoutData parse_sample
        (concat [ready_line @ [10] @ ascii ''{"type":"focu'',
                 ascii ''s","data":{"state":"focused"}}'' @ [10]]) main_manager\<close>
proof -
  have h1: "10 \<notin> set (lineBuffer main_manager)"
    by (simp add: main_manager_def BridgeManager_new_def)
  have h2: \<open>list_all complete_utf8
        (butlast [ready_line @ [10] @ ascii ''{"type":"focu'',
                  ascii ''s","data":{"state":"focused"}}'' @ [10]])\<close>
    by (simp add: complete_utf8_ascii ready_line_def ascii_def)
  from chunk_boundaries_invisible [OF h1 h2, of parse_sample] h1 h2 show ?thesis by simp
qed

text \<open>The scenario of the specification: the focus record is emitted once, after the second chunk.\<close>

lemma emitted_after_first_chunk:
  \<open>emitted (feed parse_sample [ready_line @ [10] @ ascii ''{"type":"focu''] main_manager)
   = [NReady]\<close>
  by (simp add: codec_eval)

lemma emitted_after_second_chunk:
  \<open>emitted (feed parse_sample
        [ready_line @ [10] @ ascii ''{"type":"focu'',
         ascii ''s","data":{"state":"focused"}}'' @ [10]] main_manager)
   = [NReady, NFocus (Some (JObject [(ascii ''state'', JString (ascii ''focused''))]))]\<close>
  by (simp add: codec_eval)

section \<open>Malformed lines\<close>


text \<open>\<^verbatim>\<open>handleMessage\<close> emits the notification of every event record of the specification.\<close>

lemma handleMessage_event:
  assumes "event_notification m = Some n"
  shows "handleMessage m st = Some (emit n (if n = NReady then st\<lparr>isReady := True\<rparr> else st))"
proof -
  from assms obtain kvs tag payload where m: "m = JObject kvs"
    and ty: "map_of kvs (ascii ''type'') = Some (JString tag)"
    and data: "map_of kvs (ascii ''data'') = Some (JObject payload)"
    by (auto simp: event_notification_def split: json.splits option.splits)
  from assms show ?thesis
    unfolding event_notification_def handleMessage_def m
    by (auto simp: ty data getProperty_def split: if_splits option.splits json.splits)
qed

lemma emitted_processLine_event:
  "trim line \<noteq> [] \<Longrightarrow> parse (trim line) = Some m \<Longrightarrow> event_notification m = Some n \<Longrightarrow>
   emitted (processLine parse line st) = emitted st @ [n]"
  by (simp add: processLine_def Let_def handleMessage_event emit_def)

lemma processLine_malformed:
  "parse (trim line) = None \<Longrightarrow> processLine parse line st = st"
  by (simp add: processLine_def Let_def)

lemma emitted_processLine_grows: "\<exists>ns. emitted (processLine parse line st) = emitted st @ ns"
proof (cases "trim line \<noteq> [] \<and> (\<exists>m st'. parse (trim line) = Some m \<and> handleMessage m st = Some st')")
  case True
  then obtain m st' where "parse (trim line) = Some m" "handleMessage m st = Some st'" "trim line \<noteq> []"
    by blast
  moreover from this have "\<exists>ns. emitted st' = emitted st @ ns"
    by (auto dest!: handleMessage_cases simp: emit_def)
  ultimately show ?thesis by (simp add: processLine_def Let_def)
next
  case False
  then have "processLine parse line st = st"
    by (auto simp: processLine_def Let_def split: option.splits)
  then show ?thesis by simp
qed

lemma emitted_foldl_processLine_grows:
  "\<exists>ns. emitted (foldl (\<lambda>s line. processLine parse line s) st ls) = emitted st @ ns"
proof (induction ls arbitrary: st)
  case Nil
  then show ?case by simp
next
  case (Cons l ls)
  obtain ns1 where "emitted (processLine parse l st) = emitted st @ ns1"
    using emitted_processLine_grows by blast
  moreover obtain ns2 where "emitted (foldl (\<lambda>s line. processLine parse line s) (processLine parse l st) ls)
      = emitted (processLine parse l st) @ ns2"
    using Cons.IH by blast
  ultimately show ?case by simp
qed

lemma emitted_onText_grows: "\<exists>ns. emitted (onText parse text st) = emitted st @ ns"
  by (simp add: onText_eq emitted_foldl_processLine_grows)

lemma split_newline_line:
  "10 \<notin> set l \<Longrightarrow> split_newline (l @ 10 # rest) = l # split_newline rest"
  by (induction l) auto

lemma lineBuffer_onText_boundary:
  "lineBuffer st = [] \<Longrightarrow> pre = [] \<or> last pre = 10 \<Longrightarrow> lineBuffer (onText parse pre st) = []"
proof (cases "pre = []")
  case True
  then show "lineBuffer st = [] \<Longrightarrow> ?thesis" by (simp add: lineBuffer_onText)
next
  case False
  assume "lineBuffer st = []" "pre = [] \<or> last pre = 10"
  with False have "pre = butlast pre @ [10]" by (metis append_butlast_last_id)
  then have "split_newline (lineBuffer st @ pre) = butlast (split_newline (butlast pre))
      @ [last (split_newline (butlast pre)), []]"
    using split_newline_append [of "butlast pre" "[10]"] \<open>lineBuffer st = []\<close> by simp
  then show ?thesis by (simp add: lineBuffer_onText)
qed

lemma onText_three_lines:
  assumes "lineBuffer st = []"
    and "10 \<notin> set line1" "10 \<notin> set bad" "10 \<notin> set line2"
    and "trim line1 \<noteq> []" "parse (trim line1) = Some m1" "event_notification m1 = Some n1"
    and "parse (trim bad) = None"
    and "trim line2 \<noteq> []" "parse (trim line2) = Some m2" "event_notification m2 = Some n2"
  shows "emitted (onText parse (line1 @ [10] @ bad @ [10] @ line2 @ [10]) st) = emitted st @ [n1, n2]"
proof -
  have "split_newline (lineBuffer st @ line1 @ [10] @ bad @ [10] @ line2 @ [10]) = [line1, bad, line2, []]"
    using assms(1-4) by (simp add: split_newline_line)
  then show ?thesis
    using assms(5-)
    by (simp add: onText_eq processLine_malformed emitted_processLine_event)
qed

text \<open>
  C3. A sequence of chunks whose decoded text contains, on three consecutive whole
  lines, an event record, a line that \<^verbatim>\<open>JSON.parse\<close> rejects, and another event
  record: both records' notifications are emitted, in order and next to each other,
  whatever comes before and after. The rejected line emits nothing, raises nothing (the
  handler has no failing path) and the lines after it are decoded as usual.
\<close>

theorem malformed_line_skipped:
  assumes "lineBuffer st = []"
    and "pre = [] \<or> last pre = 10"
    and "10 \<notin> set line1" "10 \<notin> set bad" "10 \<notin> set line2"
    and "trim line1 \<noteq> []" "parse (trim line1) = Some m1" "event_notification m1 = Some n1"
    and "parse (trim bad) = None"
    and "trim line2 \<noteq> []" "parse (trim line2) = Some m2" "event_notification m2 = Some n2"
    and "concat (map Buffer_toString chunks) = pre @ line1 @ [10] @ bad @ [10] @ line2 @ [10] @ post"
  shows "\<exists>before after. emitted (feed parse chunks st) = emitted st @ before @ [n1, n2] @ after"
proof -
  let ?mid = "line1 @ [10] @ bad @ [10] @ line2 @ [10]"
  let ?st1 = "onText parse pre st"
  let ?st2 = "onText parse ?mid ?st1"
  have "feed parse chunks st = onText parse (pre @ ?mid @ post) st"
    using assms(1,13) by (simp add: feed_onText)
  then have whole: "feed parse chunks st = onText parse post ?st2"
    by (simp only: onText_append)
  obtain before where b: "emitted ?st1 = emitted st @ before"
    using emitted_onText_grows by blast
  have "lineBuffer ?st1 = []"
    using assms(1,2) by (rule lineBuffer_onText_boundary)
  then have m: "emitted ?st2 = emitted ?st1 @ [n1, n2]"
    using assms(3-12) by (rule onText_three_lines)
  obtain after where a: "emitted (onText parse post ?st2) = emitted ?st2 @ after"
    using emitted_onText_grows by blast
  show ?thesis
    unfolding whole a m b by auto
qed


lemma parse_ready_line:
  "parse_sample ready_line
     = Some (JObject [(ascii ''type'', JString (ascii ''ready'')), (ascii ''data'', JObject [])])"
  by (simp add: parse_sample_def ready_line_def strip_prefix_def json_plain_def ascii_def)

lemma parse_status_ok:
  "parse_sample (status_head @ ascii ''ok'' @ status_tail)
     = Some (JObject [(ascii ''type'', JString (ascii ''status'')),
                      (ascii ''data'', JObject [(ascii ''status'', JString (ascii ''ok''))])])"
  by (simp add: parse_sample_def status_head_def status_tail_def strip_prefix_def json_plain_def
      ascii_def)

theorem malformed_line_skipped_witness:
  "lineBuffer main_manager = []
   \<and> ([] = [] \<or> last [] = (10::nat))
   \<and> 10 \<notin> set ready_line \<and> 10 \<notin> set (ascii ''not json'')
   \<and> 10 \<notin> set (status_head @ ascii ''ok'' @ status_tail)
   \<and> trim ready_line \<noteq> []
   \<and> (parse_sample (trim ready_line) :: int json option)
       = Some (JObject [(ascii ''type'', JString (ascii ''ready'')), (ascii ''data'', JObject [])])
   \<and> event_notification
         (JObject [(ascii ''type'', JString (ascii ''ready'')), (ascii ''data'', JObject [])])
       = Some (NReady :: int notification)
   \<and> (parse_sample (trim (ascii ''not json'')) :: int json option) = None
   \<and> trim (status_head @ ascii ''ok'' @ status_tail) \<noteq> []
   \<and> (parse_sample (trim (status_head @ ascii ''ok'' @ status_tail)) :: int json option)
       = Some (JObject [(ascii ''type'', JString (ascii ''status'')),
                        (ascii ''data'', JObject [(ascii ''status'', JString (ascii ''ok''))])])
   \<and> event_notification
         (JObject [(ascii ''type'', JString (ascii ''status'')),
                   (ascii ''data'', JObject [(ascii ''status'', JString (ascii ''ok''))])])
       = Some (NStatus (Some (JString (ascii ''ok''))) :: int notification)
   \<and> concat (map Buffer_toString
         [ready_line @ [10] @ ascii ''not json'' @ [10] @ (status_head @ ascii ''ok'' @ status_tail) @ [10]])
       = [] @ ready_line @ [10] @ ascii ''not json'' @ [10]
           @ (status_head @ ascii ''ok'' @ status_tail) @ [10] @ []
   \<and> (\<exists>before after.
         emitted (feed parse_sample
           [ready_line @ [10] @ ascii ''not json'' @ [10] @ (status_head @ ascii ''ok'' @ status_tail) @ [10]]
           main_manager)
         = emitted main_manager @ before
             @ [NReady, NStatus (Some (JString (ascii ''ok'')))] @ after)"
proof -
  let ?m1 = "JObject [(ascii ''type'', JString (ascii ''ready'')), (ascii ''data'', JObject [])] :: int json"
  let ?m2 = "JObject [(ascii ''type'', JString (ascii ''status'')),
                      (ascii ''data'', JObject [(ascii ''status'', JString (ascii ''ok''))])] :: int json"
  let ?l2 = "status_head @ ascii ''ok'' @ status_tail"
  let ?chunk = "ready_line @ [10] @ ascii ''not json'' @ [10] @ ?l2 @ [10]"
  have t1: "trim ready_line = ready_line"
    by (simp add: trim_def ready_line_def ascii_def isWhiteSpace_def)
  have t2: "trim ?l2 = ?l2"
    by (simp add: trim_def status_head_def status_tail_def ascii_def isWhiteSpace_def)
  have h1: "lineBuffer main_manager = []"
    by (simp add: main_manager_def BridgeManager_new_def)
  have h2: "[] = [] \<or> last [] = (10::nat)" by simp
  have h3: "10 \<notin> set ready_line" by (simp add: ready_line_def ascii_def)
  have h4: "10 \<notin> set (ascii ''not json'')" by (simp add: ascii_def)
  have h5: "10 \<notin> set ?l2" by (simp add: status_head_def status_tail_def ascii_def)
  have h6: "trim ready_line \<noteq> []" by (simp add: t1) (simp add: ready_line_def ascii_def)
  have h7: "parse_sample (trim ready_line) = Some ?m1" by (simp add: t1 parse_ready_line)
  have h8: "event_notification ?m1 = Some NReady"
    by (simp add: event_notification_def ascii_def)
  have h9: "(parse_sample (trim (ascii ''not json'')) :: int json option) = None"
    by (simp add: trim_def isWhiteSpace_def parse_sample_def strip_prefix_def ascii_def)
  have h10: "trim ?l2 \<noteq> []" by (simp add: t2) (simp add: status_head_def ascii_def)
  have h11: "parse_sample (trim ?l2) = Some ?m2" by (simp add: t2 parse_status_ok)
  have h12: "event_notification ?m2 = Some (NStatus (Some (JString (ascii ''ok''))))"
    by (simp add: event_notification_def ascii_def)
  have h13: "concat (map Buffer_toString [?chunk]) = [] @ ready_line @ [10] @ ascii ''not json'' @ [10]
           @ ?l2 @ [10] @ []"
    by (simp add: Buffer_toString_ascii ready_line_def status_head_def status_tail_def ascii_def)
  from malformed_line_skipped [OF h1 h2 h3 h4 h5 h6 h7 h8 h9 h10 h11 h12 h13]
  have c: "\<exists>before after. emitted (feed parse_sample [?chunk] main_manager)
      = emitted main_manager @ before @ [NReady, NStatus (Some (JString (ascii ''ok'')))] @ after" .
  show ?thesis
    by (intro conjI) (rule h1 h2 h3 h4 h5 h6 h7 h8 h9 h10 h11 h12 h13 c)+
qed


section \<open>What starting and stopping leave alone\<close>

lemma ready_observed_snoc:
  "ready_observed (log @ [n]) = (case n of NReady \<Rightarrow> True | NClose _ \<Rightarrow> False | _ \<Rightarrow> ready_observed log)"
  by (cases n) (simp_all add: ready_observed_def)

lemma quiet_refl [simp]: "quiet st st"
  by (simp add: quiet_def)

lemma quiet_trans: "quiet st st1 \<Longrightarrow> quiet st1 st2 \<Longrightarrow> quiet st st2"
  by (simp add: quiet_def)

lemma quiet_emit_status: "quiet st (emit_status msg st)"
  by (simp add: quiet_def emit_status_def emit_def ready_observed_snoc)

lemma quiet_onBuildStdout: "quiet st (onBuildStdout chunk st)"
  by (simp add: onBuildStdout_def Let_def quiet_emit_status)

lemma quiet_foldl_onBuildStdout: "quiet st (foldl (\<lambda>s chunk. onBuildStdout chunk s) st chunks)"
proof (induction chunks arbitrary: st)
  case Nil
  then show ?case by simp
next
  case (Cons c cs)
  from quiet_onBuildStdout Cons.IH show ?case
    by (auto intro: quiet_trans)
qed

lemma quiet_buildImage: "quiet st (snd (buildImage env st))"
proof -
  have q1: "quiet st ((emit_status msg st)\<lparr>issued := acts\<rparr>)" for msg acts
    by (simp add: quiet_def emit_status_def emit_def ready_observed_snoc)
  have q2: "quiet st (foldl (\<lambda>s chunk. onBuildStdout chunk s)
      ((emit_status msg st)\<lparr>issued := acts\<rparr>) chunks)" for msg acts chunks
    using q1 quiet_foldl_onBuildStdout by (rule quiet_trans)
  have q3: "quiet st (emit_status msg' (foldl (\<lambda>s chunk. onBuildStdout chunk s)
      ((emit_status msg st)\<lparr>issued := acts\<rparr>) chunks))" for msg msg' acts chunks
    using q2 quiet_emit_status by (rule quiet_trans)
  show ?thesis
    by (simp add: buildImage_def Let_def quiet_emit_status q2 q3
        split: option.splits build_outcome.splits)
qed

lemma quiet_startDocker: "quiet st (snd (startDocker numStr env st))"
proof (cases "buildImage env st")
  case (Pair err st1)
  have q1: "quiet st st1" using quiet_buildImage [of st env] Pair by simp
  have q4: "quiet st1 (emit_status msg (st1\<lparr>issued := a, frameWriter := f, files := fs\<rparr>))" for msg a f fs
    by (simp add: quiet_def emit_status_def emit_def ready_observed_snoc)
  show ?thesis
    using q1 quiet_trans [OF q1 q4]
    by (simp add: startDocker_def Pair Let_def quiet_def split: option.splits prod.splits)
qed

lemma quiet_startLocal: "quiet st (snd (startLocal numStr env st))"
  by (simp add: startLocal_def Let_def quiet_def split: sum.splits)

lemma quiet_start: "quiet st (snd (start numStr env st))"
  by (simp add: start_def quiet_startDocker quiet_startLocal)

lemma quiet_stop: "quiet st (stop st)"
  by (simp add: stop_def Let_def quiet_def split: option.splits)

lemma quiet_onForceKillTimer: "quiet st (onForceKillTimer st)"
  by (simp add: onForceKillTimer_def quiet_def split: option.splits)

lemma quiet_onError: "quiet st (onError err st)"
  by (simp add: onError_def emit_def quiet_def ready_observed_snoc)


section \<open>Sessions\<close>

lemma process_handleMessage:
  "handleMessage m st = Some st' \<Longrightarrow> process st' = process st"
  by (drule handleMessage_cases) (auto simp: emit_def)

lemma process_processLine [simp]: "process (processLine parse line st) = process st"
  by (simp add: processLine_def Let_def process_handleMessage split: option.splits)

lemma process_foldl_processLine [simp]:
  "process (foldl (\<lambda>s line. processLine parse line s) st ls) = process st"
  by (induction ls arbitrary: st) auto

lemma process_onStdoutData [simp]: "process (onStdoutData parse chunk st) = process st"
  by (simp add: onStdoutData_onText onText_eq)

lemma ready_handleMessage:
  assumes "handleMessage m st = Some st'" and "isReady st = ready_observed (emitted st)"
  shows "isReady st' = ready_observed (emitted st')"
  using handleMessage_cases [OF assms(1)] assms(2)
  by (auto simp: emit_def ready_observed_snoc)

lemma ready_processLine:
  "isReady st = ready_observed (emitted st) \<Longrightarrow>
   isReady (processLine parse line st) = ready_observed (emitted (processLine parse line st))"
  by (simp add: processLine_def Let_def ready_handleMessage split: option.splits)

lemma ready_foldl_processLine:
  "isReady st = ready_observed (emitted st) \<Longrightarrow>
   isReady (foldl (\<lambda>s line. processLine parse line s) st ls)
     = ready_observed (emitted (foldl (\<lambda>s line. processLine parse line s) st ls))"
  by (induction ls arbitrary: st) (simp_all add: ready_processLine)

lemma ready_onStdoutData:
  "isReady st = ready_observed (emitted st) \<Longrightarrow>
   isReady (onStdoutData parse chunk st) = ready_observed (emitted (onStdoutData parse chunk st))"
  by (simp add: onStdoutData_onText onText_eq ready_foldl_processLine)

lemma ready_step:
  assumes "isReady st = ready_observed (emitted st)"
  shows "isReady (step parse numStr ev st) = ready_observed (emitted (step parse numStr ev st))"
proof (cases ev)
  case (CallStart env)
  with assms quiet_start [of st numStr env] show ?thesis by (simp add: quiet_def)
next
  case CallStop
  with assms quiet_stop [of st] show ?thesis by (simp add: quiet_def)
next
  case (StdoutData chunk)
  with assms show ?thesis by (simp add: whileProcess_def ready_onStdoutData)
next
  case (StderrData chunk)
  with assms show ?thesis by (simp add: whileProcess_def onStderrData_def)
next
  case (ProcessClose code)
  with assms show ?thesis by (simp add: whileProcess_def onClose_def emit_def ready_observed_snoc)
next
  case (ProcessError err)
  with assms quiet_onError [of st err] show ?thesis by (simp add: whileProcess_def quiet_def)
next
  case ForceKillTimer
  with assms quiet_onForceKillTimer [of st] show ?thesis by (simp add: quiet_def)
qed

lemma ready_run:
  "isReady st = ready_observed (emitted st) \<Longrightarrow>
   isReady (run parse numStr evs st) = ready_observed (emitted (run parse numStr evs st))"
  unfolding run_def
  by (induction evs arbitrary: st) (simp_all add: ready_step)

section \<open>The decode buffer\<close>

lemma newline_free_step:
  assumes "10 \<notin> set (lineBuffer st)"
  shows "10 \<notin> set (lineBuffer (step parse numStr ev st))"
proof (cases ev)
  case (CallStart env)
  with assms quiet_start [of st numStr env] show ?thesis by (simp add: quiet_def)
next
  case CallStop
  with assms quiet_stop [of st] show ?thesis by (simp add: quiet_def)
next
  case (StdoutData chunk)
  with assms show ?thesis
    by (simp add: whileProcess_def onStdoutData_onText lineBuffer_onText last_split_newline)
next
  case (StderrData chunk)
  with assms show ?thesis by (simp add: whileProcess_def onStderrData_def)
next
  case (ProcessClose code)
  with assms show ?thesis by (simp add: whileProcess_def onClose_def emit_def)
next
  case (ProcessError err)
  with assms quiet_onError [of st err] show ?thesis by (simp add: whileProcess_def quiet_def)
next
  case ForceKillTimer
  with assms quiet_onForceKillTimer [of st] show ?thesis by (simp add: quiet_def)
qed

lemma newline_free_run:
  "10 \<notin> set (lineBuffer st) \<Longrightarrow> 10 \<notin> set (lineBuffer (run parse numStr evs st))"
  unfolding run_def
  by (induction evs arbitrary: st) (simp_all add: newline_free_step)

text \<open>
  C9. After any history of calls and callbacks from a new manager, and so after any
  sequence of chunks, the decode buffer holds no line feed. After each chunk it is what
  follows the last line feed of the buffered text and the chunk's text: at most one
  unfinished line, every complete line having been handed to the loop.
\<close>

theorem decode_buffer_no_newline:
  "10 \<notin> set (lineBuffer (run parse numStr evs (BridgeManager_new opts fs)))
   \<and> lineBuffer (onStdoutData parse chunk st)
       = last (split_newline (lineBuffer st @ Buffer_toString chunk))
   \<and> 10 \<notin> set (lineBuffer (onStdoutData parse chunk st))"
proof -
  have "10 \<notin> set (lineBuffer (BridgeManager_new opts fs))"
    by (simp add: BridgeManager_new_def)
  then show ?thesis
    by (simp add: newline_free_run onStdoutData_onText lineBuffer_onText last_split_newline)
qed


section \<open>Starting twice, stopping twice\<close>

text \<open>
  C4. In every state with a process handle, \<^verbatim>\<open>start()\<close> throws the already-running
  error and leaves the state of the manager (process handle, ready flag, frame writer,
  decode buffer and everything else) exactly as it was.
\<close>

theorem start_already_running:
  assumes "process st \<noteq> None"
  shows "start numStr env st = (Some AlreadyRunning, st)"
  using assms by (simp add: start_def)

lemmas start_eval = start_def startDocker_def startLocal_def buildImage_def findBridgePath_def
  addThresholdArgs_def push_if_defined_def init_def clearFrames_def FrameWriter_new_def
  emit_status_def emit_def sample_env_def main_manager_def main_options_def BridgeManager_new_def
  Let_def

lemma start_sample: "fst (start Number_toString sample_env main_manager) = None"
  by (simp add: start_eval)

lemma process_start_sample:
  "process (snd (start Number_toString sample_env main_manager)) \<noteq> None"
  by (simp add: start_eval)

theorem start_already_running_witness:
  "process (snd (start Number_toString sample_env main_manager)) \<noteq> None
   \<and> start Number_toString sample_env (snd (start Number_toString sample_env main_manager))
     = (Some AlreadyRunning, snd (start Number_toString sample_env main_manager))"
  using start_already_running [OF process_start_sample] process_start_sample by simp

lemma stop_idle: "process st = None \<Longrightarrow> frameWriter st = None \<Longrightarrow> stop st = st"
  by (simp add: stop_def)

text \<open>
  C5. On a new manager, before any \<^verbatim>\<open>start()\<close>, \<^verbatim>\<open>stop()\<close> changes nothing, the first
  time and the second time; \<^verbatim>\<open>stop\<close> has no throwing path.
\<close>

theorem stop_before_start_noop:
  "stop (BridgeManager_new opts fs) = BridgeManager_new opts fs
   \<and> stop (stop (BridgeManager_new opts fs)) = BridgeManager_new opts fs"
proof -
  have "stop (BridgeManager_new opts fs) = BridgeManager_new opts fs"
    by (rule stop_idle) (simp_all add: BridgeManager_new_def)
  then show ?thesis by simp
qed

section \<open>Stopping a ready session\<close>

lemma process_stop [simp]: "process (stop st) = process st"
  by (simp add: stop_def Let_def split: option.splits)

lemma isReady_stop [simp]: "isReady (stop st) = isReady st"
  using quiet_stop [of st] by (simp add: quiet_def)

lemma isReady_handleMessage:
  "handleMessage m st = Some st' \<Longrightarrow> isReady st \<Longrightarrow> isReady st'"
  by (drule handleMessage_cases) (auto simp: emit_def)

lemma isReady_processLine: "isReady st \<Longrightarrow> isReady (processLine parse line st)"
  by (simp add: processLine_def Let_def isReady_handleMessage split: option.splits)

lemma isReady_foldl_processLine:
  "isReady st \<Longrightarrow> isReady (foldl (\<lambda>s line. processLine parse line s) st ls)"
  by (induction ls arbitrary: st) (simp_all add: isReady_processLine)

lemma running_onStdoutData: "running st \<Longrightarrow> running (onStdoutData parse chunk st)"
  by (simp add: running_def onStdoutData_onText onText_eq isReady_foldl_processLine)

lemma running_step:
  assumes "running st" and "\<not> exit_observed ev"
  shows "running (step parse numStr ev st)"
proof (cases ev)
  case (CallStart env)
  with assms show ?thesis by (simp add: running_def start_def)
next
  case CallStop
  with assms show ?thesis by (simp add: running_def)
next
  case (StdoutData chunk)
  with assms show ?thesis by (simp add: whileProcess_def running_onStdoutData)
next
  case (StderrData chunk)
  with assms show ?thesis by (simp add: whileProcess_def onStderrData_def)
next
  case (ProcessClose code)
  with assms show ?thesis by (simp add: exit_observed_def)
next
  case (ProcessError err)
  with assms show ?thesis by (simp add: whileProcess_def onError_def emit_def running_def)
next
  case ForceKillTimer
  with assms show ?thesis by (simp add: onForceKillTimer_def running_def split: option.splits)
qed

lemma running_run:
  "running st \<Longrightarrow> \<not> list_ex exit_observed evs \<Longrightarrow> running (run parse numStr evs st)"
  unfolding run_def
  by (induction evs arbitrary: st) (simp_all add: running_step)

text \<open>
  C10. \<^verbatim>\<open>stop()\<close> changes neither the process handle nor the ready flag. A session that
  was running (handle and ready flag) when \<^verbatim>\<open>stop()\<close> was called is still running
  when it returns, and stays so through every later call and callback until the exit of
  the process is observed; the exit handler then makes \<^verbatim>\<open>running\<close> false.
\<close>

theorem stop_leaves_running:
  "process (stop st) = process st \<and> isReady (stop st) = isReady st
   \<and> (running st \<longrightarrow> running (stop st))
   \<and> (running st \<longrightarrow> \<not> list_ex exit_observed evs \<longrightarrow> running (run parse numStr evs (stop st)))
   \<and> \<not> running (onClose code (run parse numStr evs (stop st)))"
proof -
  have "running st \<Longrightarrow> running (stop st)" by (simp add: running_def)
  then show ?thesis
    by (simp add: running_run) (simp add: running_def onClose_def emit_def)
qed

lemma running_ready_session: "running ready_session"
  by (simp add: ready_session_def run_def whileProcess_def running_def start_eval codec_eval)


theorem stop_leaves_running_witness:
  "running ready_session
   \<and> \<not> list_ex exit_observed [StdoutData (ready_line @ [10]), ForceKillTimer, CallStart sample_env]
   \<and> running (stop ready_session)
   \<and> running (run parse_sample Number_toString
         [StdoutData (ready_line @ [10]), ForceKillTimer, CallStart sample_env]
         (stop ready_session))"
  using stop_leaves_running [of ready_session
      "[StdoutData (ready_line @ [10]), ForceKillTimer, CallStart sample_env]"
      parse_sample Number_toString None]
    running_ready_session
  by (simp add: exit_observed_def)

text \<open>
  The scenario of the specification: the bridge announces that it is ready and then
  exits with code 137.
\<close>

lemma exit_137_example:
  "emitted (run parse_sample Number_toString [ProcessClose (Some 137)] ready_session)
     = [NStatus (Some (JString (ascii ''Docker image already built''))),
        NStatus (Some (JString (ascii ''Starting SmartSpectra container...''))),
        NReady, NClose (Some 137)]"
  "\<not> running (run parse_sample Number_toString [ProcessClose (Some 137)] ready_session)"
  by (simp_all add: ready_session_def run_def whileProcess_def running_def onClose_def
      start_eval codec_eval)

section \<open>Composed arguments\<close>

lemma is_flag_flag_like: "is_flag name arg \<Longrightarrow> flag_like arg"
proof -
  assume "is_flag name arg"
  then have "take 2 (take (length name + 3) arg) = take 2 (ascii ''--'' @ ascii name @ ascii ''='')"
    by (simp add: is_flag_def)
  then show ?thesis by (simp add: flag_like_def ascii_def min_def)
qed

lemma flag_like_frames_mount:
  "flag_like (dir @ ascii '':/frames'') \<Longrightarrow> flag_like dir"
proof (cases dir)
  case Nil
  then show "flag_like (dir @ ascii '':/frames'') \<Longrightarrow> ?thesis" by (simp add: flag_like_def ascii_def)
next
  case (Cons c cs)
  then show "flag_like (dir @ ascii '':/frames'') \<Longrightarrow> ?thesis"
    by (cases cs) (simp_all add: flag_like_def ascii_def)
qed

lemmas flag_eval = has_flag_def is_flag_def push_if_defined_def ascii_def

lemma has_flag_addThresholdArgs:
  "has_flag ''gaze_threshold'' (addThresholdArgs numStr opts args)
     \<longleftrightarrow> has_flag ''gaze_threshold'' args \<or> gazeThreshold opts \<noteq> None"
  "has_flag ''blink_threshold'' (addThresholdArgs numStr opts args)
     \<longleftrightarrow> has_flag ''blink_threshold'' args \<or> blinkThreshold opts \<noteq> None"
  "has_flag ''pulse_threshold'' (addThresholdArgs numStr opts args)
     \<longleftrightarrow> has_flag ''pulse_threshold'' args \<or> pulseThreshold opts \<noteq> None"
  "has_flag ''breathing_threshold'' (addThresholdArgs numStr opts args)
     \<longleftrightarrow> has_flag ''breathing_threshold'' args \<or> breathingThreshold opts \<noteq> None"
  "has_flag ''camera_device_index'' (addThresholdArgs numStr opts args)
     \<longleftrightarrow> has_flag ''camera_device_index'' args"
  "has_flag ''capture_width'' (addThresholdArgs numStr opts args)
     \<longleftrightarrow> has_flag ''capture_width'' args"
  "has_flag ''capture_height'' (addThresholdArgs numStr opts args)
     \<longleftrightarrow> has_flag ''capture_height'' args"
  by (auto simp: addThresholdArgs_def flag_eval split: option.splits)

text \<open>The arguments of the native bridge before the thresholds.\<close>

lemma has_flag_local_args:
  fixes args0 defines "args0 \<equiv> \<lambda>numStr opts.
    push_if_defined (ascii ''--capture_height='') numStr (captureHeight opts)
      (push_if_defined (ascii ''--capture_width='') numStr (captureWidth opts)
         (push_if_defined (ascii ''--camera_device_index='') numStr (cameraIndex opts)
            [ascii ''--api_key='' @ apiKey opts]))"
  shows "\<not> has_flag ''gaze_threshold'' (args0 numStr opts)"
    "\<not> has_flag ''blink_threshold'' (args0 numStr opts)"
    "\<not> has_flag ''pulse_threshold'' (args0 numStr opts)"
    "\<not> has_flag ''breathing_threshold'' (args0 numStr opts)"
    "has_flag ''camera_device_index'' (args0 numStr opts) \<longleftrightarrow> cameraIndex opts \<noteq> None"
    "has_flag ''capture_width'' (args0 numStr opts) \<longleftrightarrow> captureWidth opts \<noteq> None"
    "has_flag ''capture_height'' (args0 numStr opts) \<longleftrightarrow> captureHeight opts \<noteq> None"
  unfolding args0_def
  by (auto simp: flag_eval split: option.splits)


text \<open>The arguments of \<^verbatim>\<open>docker run\<close> before the thresholds.\<close>

lemma has_flag_docker_args:
  fixes args0 defines "args0 \<equiv> \<lambda>img dir key.
    [ascii ''run'', ascii ''--rm'', ascii ''--platform'', ascii ''linux/amd64'',
     ascii ''--name'', img,
     ascii ''--dns'', ascii ''8.8.8.8'', ascii ''--dns'', ascii ''8.8.4.4'',
     ascii ''-v'', dir @ ascii '':/frames'',
     ascii ''-e'', ascii ''SMARTSPECTRA_API_KEY='' @ key,
     img,
     ascii ''--mode=server'',
     ascii ''--file_stream_path='' @ containerFileStreamPath,
     ascii ''--erase_read_files=true'',
     ascii ''--rescan_delay_ms=5'']"
  assumes "\<not> flag_like img" and "\<not> flag_like dir"
  shows "\<not> has_flag ''gaze_threshold'' (args0 img dir key)"
    "\<not> has_flag ''blink_threshold'' (args0 img dir key)"
    "\<not> has_flag ''pulse_threshold'' (args0 img dir key)"
    "\<not> has_flag ''breathing_threshold'' (args0 img dir key)"
proof -
  have a: "\<not> is_flag name img" for name
    using assms(2) is_flag_flag_like by blast
  have b: "\<not> is_flag name (dir @ ascii '':/frames'')" for name
    using assms(3) is_flag_flag_like flag_like_frames_mount by blast
  have "\<not> flag_like (ascii ''SMARTSPECTRA_API_KEY='' @ key)"
    by (simp add: flag_like_def ascii_def)
  then have c: "\<not> is_flag name (ascii ''SMARTSPECTRA_API_KEY='' @ key)" for name
    using is_flag_flag_like by blast
  show "\<not> has_flag ''gaze_threshold'' (args0 img dir key)"
    unfolding args0_def
    using a [of "''gaze_threshold''"] b [of "''gaze_threshold''"] c [of "''gaze_threshold''"]
    by (simp add: has_flag_def is_flag_def ascii_def containerFileStreamPath_def)
  show "\<not> has_flag ''blink_threshold'' (args0 img dir key)"
    unfolding args0_def
    using a [of "''blink_threshold''"] b [of "''blink_threshold''"] c [of "''blink_threshold''"]
    by (simp add: has_flag_def is_flag_def ascii_def containerFileStreamPath_def)
  show "\<not> has_flag ''pulse_threshold'' (args0 img dir key)"
    unfolding args0_def
    using a [of "''pulse_threshold''"] b [of "''pulse_threshold''"] c [of "''pulse_threshold''"]
    by (simp add: has_flag_def is_flag_def ascii_def containerFileStreamPath_def)
  show "\<not> has_flag ''breathing_threshold'' (args0 img dir key)"
    unfolding args0_def
    using a [of "''breathing_threshold''"] b [of "''breathing_threshold''"]
      c [of "''breathing_threshold''"]
    by (simp add: has_flag_def is_flag_def ascii_def containerFileStreamPath_def)
qed

text \<open>The image build leaves the configuration alone.\<close>

lemma config_emit_status [simp]:
  "options (emit_status msg st) = options st" "dockerImage (emit_status msg st) = dockerImage st"
  "files (emit_status msg st) = files st" "issued (emit_status msg st) = issued st"
  by (simp_all add: emit_status_def emit_def)

lemma config_onBuildStdout [simp]:
  "options (onBuildStdout chunk st) = options st"
  "dockerImage (onBuildStdout chunk st) = dockerImage st"
  by (simp_all add: onBuildStdout_def Let_def)

lemma config_foldl_onBuildStdout [simp]:
  "options (foldl (\<lambda>s chunk. onBuildStdout chunk s) st chunks) = options st"
  "dockerImage (foldl (\<lambda>s chunk. onBuildStdout chunk s) st chunks) = dockerImage st"
  by (induction chunks arbitrary: st) simp_all

lemma config_buildImage:
  "options (snd (buildImage env st)) = options st"
  "dockerImage (snd (buildImage env st)) = dockerImage st"
  by (simp_all add: buildImage_def Let_def split: option.splits build_outcome.splits)

lemma frameDir_init: "frameDir (fst (init (fw, fs))) = frameDir fw"
  by (simp add: init_def Let_def)

lemma process_startDocker:
  assumes "fst (startDocker numStr env st) = None"
  shows "process (snd (startDocker numStr env st)) =
    Some \<lparr>spawnfile = ascii ''docker'',
          spawnargs = addThresholdArgs numStr (options st)
            [ascii ''run'', ascii ''--rm'', ascii ''--platform'', ascii ''linux/amd64'',
             ascii ''--name'', dockerImage st,
             ascii ''--dns'', ascii ''8.8.8.8'', ascii ''--dns'', ascii ''8.8.4.4'',
             ascii ''-v'',
             frameDir (FrameWriter_new (tmpFrames env) (opt_frameDir (options st))) @ ascii '':/frames'',
             ascii ''-e'', ascii ''SMARTSPECTRA_API_KEY='' @ apiKey (options st),
             dockerImage st,
             ascii ''--mode=server'',
             ascii ''--file_stream_path='' @ containerFileStreamPath,
             ascii ''--erase_read_files=true'',
             ascii ''--rescan_delay_ms=5'']\<rparr>"
proof (cases "buildImage env st")
  case (Pair err st1)
  have cfg: "options st1 = options st" "dockerImage st1 = dockerImage st"
    using config_buildImage [of env st] Pair by simp_all
  from assms Pair have ok: "dockerAvailable env" "err = None"
    by (auto simp: startDocker_def split: if_splits option.splits)
  obtain fw fs where i: "init (FrameWriter_new (tmpFrames env) (opt_frameDir (options st)),
      files st1) = (fw, fs)"
    by (cases "init (FrameWriter_new (tmpFrames env) (opt_frameDir (options st)), files st1)")
  have dir: "frameDir fw = frameDir (FrameWriter_new (tmpFrames env) (opt_frameDir (options st)))"
    using frameDir_init [of "FrameWriter_new (tmpFrames env) (opt_frameDir (options st))" "files st1"] i
    by simp
  show ?thesis
    using ok
    by (simp add: startDocker_def Pair Let_def cfg i dir)
qed

lemma process_startLocal:
  assumes "fst (startLocal numStr env st) = None"
  shows "\<exists>path. process (snd (startLocal numStr env st)) =
    Some \<lparr>spawnfile = path,
          spawnargs = addThresholdArgs numStr (options st)
            (push_if_defined (ascii ''--capture_height='') numStr (captureHeight (options st))
               (push_if_defined (ascii ''--capture_width='') numStr (captureWidth (options st))
                  (push_if_defined (ascii ''--camera_device_index='') numStr (cameraIndex (options st))
                     [ascii ''--api_key='' @ apiKey (options st)])))\<rparr>"
  using assms
  by (auto simp: startLocal_def Let_def split: sum.splits)

lemma addThresholdArgs_append:
  "addThresholdArgs numStr opts args = args @ addThresholdArgs numStr opts []"
  by (simp add: addThresholdArgs_def push_if_defined_def split: option.splits)

lemma has_flag_Nil [simp]: "\<not> has_flag name []"
  by (simp add: has_flag_def)

lemma has_flag_drop_addThresholdArgs:
  "length args = n \<Longrightarrow>
   has_flag name (drop n (addThresholdArgs numStr opts args))
     \<longleftrightarrow> has_flag name (addThresholdArgs numStr opts [])"
  by (subst addThresholdArgs_append) simp

text \<open>
  C7. When \<^verbatim>\<open>start()\<close> succeeds, the argument list of the spawned process carries the
  optional flags as follows. In native mode it contains the flag of a threshold (gaze,
  blink, pulse, breathing), of the camera index and of each capture size if and only if
  that option is set. In docker mode the arguments after the nineteen fixed ones of
  \<^verbatim>\<open>docker run\<close> contain the flag of a threshold if and only if that threshold is set;
  the same holds of the whole list as long as the two configuration strings that are
  passed on as they are, the image name and the frame directory, do not themselves
  begin with two dashes (no docker image name and no absolute path does).
\<close>

theorem flags_iff_options_set:
  assumes "fst (start numStr env st) = None"
  shows "\<exists>p. process (snd (start numStr env st)) = Some p
    \<and> (mode st = Local \<longrightarrow>
         (has_flag ''gaze_threshold'' (spawnargs p) \<longleftrightarrow> gazeThreshold (options st) \<noteq> None)
         \<and> (has_flag ''blink_threshold'' (spawnargs p) \<longleftrightarrow> blinkThreshold (options st) \<noteq> None)
         \<and> (has_flag ''pulse_threshold'' (spawnargs p) \<longleftrightarrow> pulseThreshold (options st) \<noteq> None)
         \<and> (has_flag ''breathing_threshold'' (spawnargs p)
              \<longleftrightarrow> breathingThreshold (options st) \<noteq> None)
         \<and> (has_flag ''camera_device_index'' (spawnargs p) \<longleftrightarrow> cameraIndex (options st) \<noteq> None)
         \<and> (has_flag ''capture_width'' (spawnargs p) \<longleftrightarrow> captureWidth (options st) \<noteq> None)
         \<and> (has_flag ''capture_height'' (spawnargs p) \<longleftrightarrow> captureHeight (options st) \<noteq> None))
    \<and> (mode st = Docker \<longrightarrow>
         (has_flag ''gaze_threshold'' (drop 19 (spawnargs p))
            \<longleftrightarrow> gazeThreshold (options st) \<noteq> None)
         \<and> (has_flag ''blink_threshold'' (drop 19 (spawnargs p))
              \<longleftrightarrow> blinkThreshold (options st) \<noteq> None)
         \<and> (has_flag ''pulse_threshold'' (drop 19 (spawnargs p))
              \<longleftrightarrow> pulseThreshold (options st) \<noteq> None)
         \<and> (has_flag ''breathing_threshold'' (drop 19 (spawnargs p))
              \<longleftrightarrow> breathingThreshold (options st) \<noteq> None))
    \<and> (mode st = Docker \<longrightarrow> \<not> flag_like (dockerImage st) \<longrightarrow>
         \<not> flag_like (frameDir (FrameWriter_new (tmpFrames env) (opt_frameDir (options st)))) \<longrightarrow>
         (has_flag ''gaze_threshold'' (spawnargs p) \<longleftrightarrow> gazeThreshold (options st) \<noteq> None)
         \<and> (has_flag ''blink_threshold'' (spawnargs p) \<longleftrightarrow> blinkThreshold (options st) \<noteq> None)
         \<and> (has_flag ''pulse_threshold'' (spawnargs p) \<longleftrightarrow> pulseThreshold (options st) \<noteq> None)
         \<and> (has_flag ''breathing_threshold'' (spawnargs p)
              \<longleftrightarrow> breathingThreshold (options st) \<noteq> None))"
proof -
  from assms(1) have idle: "process st = None"
    by (auto simp: start_def split: if_splits)
  show ?thesis
  proof (cases "mode st")
    case Docker
    with assms(1) idle have "fst (startDocker numStr env st) = None"
      by (simp add: start_def)
    from process_startDocker [OF this] Docker idle show ?thesis
      by (simp add: start_def has_flag_addThresholdArgs has_flag_docker_args
          has_flag_drop_addThresholdArgs)
  next
    case Local
    with assms(1) idle have "fst (startLocal numStr env st) = None"
      by (simp add: start_def)
    from process_startLocal [OF this] Local idle show ?thesis
      by (auto simp: start_def has_flag_addThresholdArgs has_flag_local_args)
  qed
qed

theorem flags_iff_options_set_witness:
  "fst (start Number_toString sample_env tuned_manager) = None
   \<and> mode tuned_manager = Docker
   \<and> \<not> flag_like (dockerImage tuned_manager)
   \<and> \<not> flag_like (frameDir (FrameWriter_new (tmpFrames sample_env)
         (opt_frameDir (options tuned_manager))))
   \<and> gazeThreshold (options tuned_manager) \<noteq> None
   \<and> blinkThreshold (options tuned_manager) = None
   \<and> (\<exists>p. process (snd (start Number_toString sample_env tuned_manager)) = Some p
          \<and> has_flag ''gaze_threshold'' (drop 19 (spawnargs p))
          \<and> has_flag ''gaze_threshold'' (spawnargs p)
          \<and> \<not> has_flag ''blink_threshold'' (spawnargs p))
   \<and> fst (start Number_toString sample_env local_manager) = None
   \<and> mode local_manager = Local
   \<and> cameraIndex (options local_manager) \<noteq> None
   \<and> captureWidth (options local_manager) \<noteq> None
   \<and> captureHeight (options local_manager) = None
   \<and> pulseThreshold (options local_manager) \<noteq> None
   \<and> gazeThreshold (options local_manager) = None
   \<and> blinkThreshold (options local_manager) = None
   \<and> breathingThreshold (options local_manager) = None
   \<and> (\<exists>p. process (snd (start Number_toString sample_env local_manager)) = Some p
          \<and> has_flag ''camera_device_index'' (spawnargs p)
          \<and> has_flag ''capture_width'' (spawnargs p)
          \<and> \<not> has_flag ''capture_height'' (spawnargs p)
          \<and> has_flag ''pulse_threshold'' (spawnargs p)
          \<and> \<not> has_flag ''gaze_threshold'' (spawnargs p)
          \<and> \<not> has_flag ''blink_threshold'' (spawnargs p)
          \<and> \<not> has_flag ''breathing_threshold'' (spawnargs p))"
proof -
  have h1: "fst (start Number_toString sample_env tuned_manager) = None"
    by (simp add: start_eval tuned_manager_def)
  have m: "mode tuned_manager = Docker"
    by (simp add: tuned_manager_def BridgeManager_new_def main_options_def)
  have h2: "\<not> flag_like (dockerImage tuned_manager)"
    and h3: "\<not> flag_like (frameDir (FrameWriter_new (tmpFrames sample_env)
         (opt_frameDir (options tuned_manager))))"
    by (simp_all add: tuned_manager_def BridgeManager_new_def main_options_def sample_env_def
        FrameWriter_new_def flag_like_def ascii_def)
  have g: "gazeThreshold (options tuned_manager) \<noteq> None"
    and b: "blinkThreshold (options tuned_manager) = None"
    by (simp_all add: tuned_manager_def BridgeManager_new_def main_options_def)
  from flags_iff_options_set [OF h1] m h2 h3 g b
  have d: "\<exists>p. process (snd (start Number_toString sample_env tuned_manager)) = Some p
          \<and> has_flag ''gaze_threshold'' (drop 19 (spawnargs p))
          \<and> has_flag ''gaze_threshold'' (spawnargs p)
          \<and> \<not> has_flag ''blink_threshold'' (spawnargs p)"
    by auto
  have l1: "fst (start Number_toString sample_env local_manager) = None"
    by (simp add: start_eval local_manager_def ascii_def)
  have lm: "mode local_manager = Local"
    by (simp add: local_manager_def BridgeManager_new_def main_options_def)
  have lo: "cameraIndex (options local_manager) \<noteq> None"
    "captureWidth (options local_manager) \<noteq> None"
    "captureHeight (options local_manager) = None"
    "pulseThreshold (options local_manager) \<noteq> None"
    "gazeThreshold (options local_manager) = None"
    "blinkThreshold (options local_manager) = None"
    "breathingThreshold (options local_manager) = None"
    by (simp_all add: local_manager_def BridgeManager_new_def main_options_def)
  from flags_iff_options_set [OF l1] lm lo
  have l: "\<exists>p. process (snd (start Number_toString sample_env local_manager)) = Some p
          \<and> has_flag ''camera_device_index'' (spawnargs p)
          \<and> has_flag ''capture_width'' (spawnargs p)
          \<and> \<not> has_flag ''capture_height'' (spawnargs p)
          \<and> has_flag ''pulse_threshold'' (spawnargs p)
          \<and> \<not> has_flag ''gaze_threshold'' (spawnargs p)
          \<and> \<not> has_flag ''blink_threshold'' (spawnargs p)
          \<and> \<not> has_flag ''breathing_threshold'' (spawnargs p)"
    by auto
  show ?thesis
    by (intro conjI) (rule h1 m h2 h3 g b d l1 lm lo l)+
qed

text \<open>The argument lists of the two sample configurations.\<close>

lemma docker_args_example:
  "map_option spawnargs (process (snd (start Number_toString sample_env tuned_manager)))
   = Some [ascii ''run'', ascii ''--rm'', ascii ''--platform'', ascii ''linux/amd64'',
           ascii ''--name'', ascii ''focus-wizard-bridge'',
           ascii ''--dns'', ascii ''8.8.8.8'', ascii ''--dns'', ascii ''8.8.4.4'',
           ascii ''-v'', ascii ''/tmp/focus-wizard-frames:/frames'',
           ascii ''-e'', ascii ''SMARTSPECTRA_API_KEY=key'',
           ascii ''focus-wizard-bridge'',
           ascii ''--mode=server'',
           ascii ''--file_stream_path=/frames/frame0000000000000000.jpg'',
           ascii ''--erase_read_files=true'',
           ascii ''--rescan_delay_ms=5'',
           ascii ''--gaze_threshold=5'']"
  by (simp add: start_eval tuned_manager_def containerFileStreamPath_def ascii_def
      Number_toString_def nat_digits.simps)

lemma local_args_example:
  "process (snd (start Number_toString sample_env local_manager))
   = Some \<lparr>spawnfile = ascii ''/opt/focus_bridge'',
           spawnargs = [ascii ''--api_key=key'', ascii ''--camera_device_index=0'',
                        ascii ''--capture_width=640'', ascii ''--pulse_threshold=3'']\<rparr>"
  by (simp add: start_eval local_manager_def ascii_def Number_toString_def nat_digits.simps)

section \<open>Becoming ready, and the exit of the process\<close>

lemma getProperty_None: "getProperty (Some m) key = None \<longleftrightarrow> m = JNull"
  by (cases m) (simp_all add: getProperty_def)

lemma isReady_after_handleMessage:
  "isReady (case handleMessage m st of None \<Rightarrow> st | Some st' \<Rightarrow> st')
     \<longleftrightarrow> isReady st \<or> getProperty (Some m) (ascii ''type'') = Some (Some (JString (ascii ''ready'')))"
proof (cases "m = JNull")
  case True
  then show ?thesis by (simp add: handleMessage_def getProperty_def)
next
  case False
  then obtain ty data where ty: "getProperty (Some m) (ascii ''type'') = Some ty"
    and data: "getProperty (Some m) (ascii ''data'') = Some data"
    using getProperty_None [of m] by (metis not_Some_eq)
  have neq: "ascii ''focus'' \<noteq> ascii ''ready''" "ascii ''metrics'' \<noteq> ascii ''ready''"
    "ascii ''edge'' \<noteq> ascii ''ready''" "ascii ''status'' \<noteq> ascii ''ready''"
    "ascii ''error'' \<noteq> ascii ''ready''"
    by (simp_all add: ascii_def)
  show ?thesis
    unfolding handleMessage_def ty data option.case
    using neq
    by (cases "getProperty data (ascii ''status'')"; cases "getProperty data (ascii ''message'')")
      (auto simp: emit_def)
qed

lemma isReady_after_processLine:
  "isReady (processLine parse line st) \<longleftrightarrow> isReady st \<or> is_ready_line parse line"
  by (cases "parse (trim line)")
    (simp_all add: processLine_def Let_def is_ready_line_def isReady_after_handleMessage)

lemma isReady_after_lines:
  "isReady (foldl (\<lambda>s line. processLine parse line s) st ls)
     \<longleftrightarrow> isReady st \<or> list_ex (is_ready_line parse) ls"
  by (induction ls arbitrary: st) (auto simp: isReady_after_processLine)

lemma isReady_after_onStdoutData:
  "isReady (onStdoutData parse chunk st)
     \<longleftrightarrow> isReady st
         \<or> list_ex (is_ready_line parse)
             (butlast (split_newline (lineBuffer st @ Buffer_toString chunk)))"
  by (simp add: onStdoutData_onText onText_eq isReady_after_lines)

lemma ready_record_is_ready_line:
  assumes "trim line \<noteq> []" "parse (trim line) = Some m" "event_notification m = Some NReady"
  shows "is_ready_line parse line"
proof -
  from assms(3) obtain kvs tag payload where m: "m = JObject kvs"
    and ty: "map_of kvs (ascii ''type'') = Some (JString tag)"
    and data: "map_of kvs (ascii ''data'') = Some (JObject payload)"
    by (auto simp: event_notification_def split: json.splits option.splits)
  from assms(3) have "tag = ascii ''ready''"
    unfolding event_notification_def m
    by (auto simp: ty data split: if_splits option.splits json.splits)
  with assms(1,2) show ?thesis
    by (simp add: is_ready_line_def m getProperty_def ty)
qed

text \<open>Without a process handle the ready flag is down, in every state a history leads to.\<close>

lemma idle_step:
  assumes "process st = None \<longrightarrow> \<not> isReady st"
  shows "process (step parse numStr ev st) = None \<longrightarrow> \<not> isReady (step parse numStr ev st)"
proof (cases ev)
  case (CallStart env)
  show ?thesis
  proof (cases "process st = None")
    case True
    with assms quiet_start [of st numStr env] CallStart show ?thesis by (simp add: quiet_def)
  next
    case False
    with CallStart show ?thesis by (auto simp: start_def)
  qed
next
  case CallStop
  with assms show ?thesis by simp
next
  case (StdoutData chunk)
  with assms show ?thesis by (auto simp: whileProcess_def)
next
  case (StderrData chunk)
  with assms show ?thesis by (auto simp: whileProcess_def onStderrData_def)
next
  case (ProcessClose code)
  with assms show ?thesis by (auto simp: whileProcess_def onClose_def emit_def)
next
  case (ProcessError err)
  with assms show ?thesis by (auto simp: whileProcess_def onError_def emit_def)
next
  case ForceKillTimer
  with assms show ?thesis by (auto simp: onForceKillTimer_def split: option.splits)
qed

lemma idle_run:
  "(process st = None \<longrightarrow> \<not> isReady st) \<Longrightarrow>
   process (run parse numStr evs st) = None \<longrightarrow> \<not> isReady (run parse numStr evs st)"
  unfolding run_def
  by (induction evs arbitrary: st) (simp_all add: idle_step)

lemma process_after_start:
  assumes "fst (start numStr env st) = None"
  shows "process st = None \<and> process (snd (start numStr env st)) \<noteq> None"
proof -
  from assms have idle: "process st = None"
    by (auto simp: start_def split: if_splits)
  show ?thesis
  proof (cases "mode st")
    case Docker
    with assms idle have "fst (startDocker numStr env st) = None" by (simp add: start_def)
    from process_startDocker [OF this] Docker idle show ?thesis by (simp add: start_def)
  next
    case Local
    with assms idle have "fst (startLocal numStr env st) = None" by (simp add: start_def)
    from process_startLocal [OF this] Local idle show ?thesis by (auto simp: start_def)
  qed
qed

text \<open>
  C6. \<^verbatim>\<open>running\<close> is true exactly when a process handle exists and a ready event has
  been observed for the current session. A session that has just been started has a
  handle and is not running. While there is a handle, a chunk of output makes the manager
  running if and only if it was running already or the chunk completes a line that
  decodes to a record of type \<^verbatim>\<open>ready\<close>, and every ready record of the
  specification is such a line. The exit of the process, with any exit code, clears the
  handle and the ready flag and emits a close notification carrying the code, so
  \<^verbatim>\<open>running\<close> is false right after it. On the manager's own record, after any history
  of calls and callbacks from a new manager: \<^verbatim>\<open>running\<close> holds exactly when there is a
  handle and a ready notification has been emitted since the last close notification.
\<close>

theorem running_iff_ready_observed:
  "(running (run parse numStr evs (BridgeManager_new opts fs))
      \<longleftrightarrow> process (run parse numStr evs (BridgeManager_new opts fs)) \<noteq> None
          \<and> ready_observed (emitted (run parse numStr evs (BridgeManager_new opts fs))))
   \<and> (fst (start numStr env (run parse numStr evs (BridgeManager_new opts fs))) = None \<longrightarrow>
        process (snd (start numStr env (run parse numStr evs (BridgeManager_new opts fs)))) \<noteq> None
        \<and> \<not> running (snd (start numStr env (run parse numStr evs (BridgeManager_new opts fs)))))
   \<and> (process st \<noteq> None \<longrightarrow>
        (running (step parse numStr (StdoutData chunk) st)
           \<longleftrightarrow> running st
               \<or> list_ex (is_ready_line parse)
                   (butlast (split_newline (lineBuffer st @ Buffer_toString chunk)))))
   \<and> (trim line \<noteq> [] \<longrightarrow> parse (trim line) = Some m \<longrightarrow> event_notification m = Some NReady \<longrightarrow>
        is_ready_line parse line)
   \<and> (process st \<noteq> None \<longrightarrow>
        process (step parse numStr (ProcessClose code) st) = None
        \<and> \<not> isReady (step parse numStr (ProcessClose code) st)
        \<and> emitted (step parse numStr (ProcessClose code) st) = emitted st @ [NClose code]
        \<and> \<not> running (step parse numStr (ProcessClose code) st))
   \<and> process (onClose code st) = None
   \<and> \<not> isReady (onClose code st)
   \<and> emitted (onClose code st) = emitted st @ [NClose code]
   \<and> \<not> running (onClose code st)"
proof -
  let ?h = "run parse numStr evs (BridgeManager_new opts fs)"
  have init: "isReady (BridgeManager_new opts fs) = ready_observed (emitted (BridgeManager_new opts fs))"
    by (simp add: BridgeManager_new_def ready_observed_def)
  have a: "running ?h \<longleftrightarrow> process ?h \<noteq> None \<and> ready_observed (emitted ?h)"
    using ready_run [OF init] by (simp add: running_def)
  have "process (BridgeManager_new opts fs) = None \<longrightarrow> \<not> isReady (BridgeManager_new opts fs)"
    by (simp add: BridgeManager_new_def)
  then have idle: "process ?h = None \<longrightarrow> \<not> isReady ?h" by (rule idle_run)
  have b: "fst (start numStr env ?h) = None \<longrightarrow>
      process (snd (start numStr env ?h)) \<noteq> None \<and> \<not> running (snd (start numStr env ?h))"
  proof
    assume ok: "fst (start numStr env ?h) = None"
    from process_after_start [OF ok] idle quiet_start [of ?h numStr env]
    show "process (snd (start numStr env ?h)) \<noteq> None \<and> \<not> running (snd (start numStr env ?h))"
      by (simp add: quiet_def running_def)
  qed
  have c: "process st \<noteq> None \<longrightarrow>
        (running (step parse numStr (StdoutData chunk) st)
           \<longleftrightarrow> running st
               \<or> list_ex (is_ready_line parse)
                   (butlast (split_newline (lineBuffer st @ Buffer_toString chunk))))"
    by (auto simp: whileProcess_def running_def isReady_after_onStdoutData)
  have d: "trim line \<noteq> [] \<longrightarrow> parse (trim line) = Some m \<longrightarrow> event_notification m = Some NReady \<longrightarrow>
        is_ready_line parse line"
    using ready_record_is_ready_line by blast
  have e: "process (onClose code st) = None" "\<not> isReady (onClose code st)"
    "emitted (onClose code st) = emitted st @ [NClose code]" "\<not> running (onClose code st)"
    by (simp_all add: onClose_def emit_def running_def)
  have f: "process st \<noteq> None \<longrightarrow>
        process (step parse numStr (ProcessClose code) st) = None
        \<and> \<not> isReady (step parse numStr (ProcessClose code) st)
        \<and> emitted (step parse numStr (ProcessClose code) st) = emitted st @ [NClose code]
        \<and> \<not> running (step parse numStr (ProcessClose code) st)"
    using e by (simp add: whileProcess_def)
  from a b c d e f show ?thesis by blast
qed


lemma started_session_facts:
  "fst (start Number_toString sample_env main_manager) = None"
  "process started_session \<noteq> None" "lineBuffer started_session = []"
  "\<not> isReady started_session"
  by (simp_all add: started_session_def start_eval)

lemma ready_session_step:
  "ready_session
     = step parse_sample Number_toString (StdoutData (ready_line @ [10])) started_session"
  by (simp add: ready_session_def run_def started_session_def)

theorem running_iff_ready_observed_witness:
  "fst (start Number_toString sample_env main_manager) = None
   \<and> process started_session \<noteq> None
   \<and> \<not> running started_session
   \<and> trim ready_line \<noteq> []
   \<and> (parse_sample (trim ready_line) :: int json option)
       = Some (JObject [(ascii ''type'', JString (ascii ''ready'')), (ascii ''data'', JObject [])])
   \<and> event_notification
         (JObject [(ascii ''type'', JString (ascii ''ready'')), (ascii ''data'', JObject [])])
       = Some (NReady :: int notification)
   \<and> is_ready_line (parse_sample :: jsstring \<Rightarrow> int json option) ready_line
   \<and> list_ex (is_ready_line (parse_sample :: jsstring \<Rightarrow> int json option))
         (butlast (split_newline (lineBuffer started_session @ Buffer_toString (ready_line @ [10]))))
   \<and> running (step parse_sample Number_toString (StdoutData (ready_line @ [10])) started_session)
   \<and> running ready_session
   \<and> process ready_session \<noteq> None
   \<and> process (step parse_sample Number_toString (ProcessClose (Some 137)) ready_session) = None
   \<and> \<not> isReady (step parse_sample Number_toString (ProcessClose (Some 137)) ready_session)
   \<and> emitted (step parse_sample Number_toString (ProcessClose (Some 137)) ready_session)
       = emitted ready_session @ [NClose (Some 137)]
   \<and> \<not> running (step parse_sample Number_toString (ProcessClose (Some 137)) ready_session)"
proof -
  let ?m = "JObject [(ascii ''type'', JString (ascii ''ready'')), (ascii ''data'', JObject [])] :: int json"
  let ?parse = "parse_sample :: jsstring \<Rightarrow> int json option"
  note T1 = running_iff_ready_observed [where parse = ?parse and numStr = Number_toString
      and evs = "[]" and opts = "main_options (ascii ''key'')" and fs = Map.empty
      and env = sample_env and st = started_session and chunk = "ready_line @ [10]"
      and line = ready_line and m = ?m and code = "Some 137"]
  note T2 = running_iff_ready_observed [where parse = ?parse and numStr = Number_toString
      and evs = "[]" and opts = "main_options (ascii ''key'')" and fs = Map.empty
      and env = sample_env and st = ready_session and chunk = "ready_line @ [10]"
      and line = ready_line and m = ?m and code = "Some 137"]
  have new: "run ?parse Number_toString [] (BridgeManager_new (main_options (ascii ''key'')) Map.empty)
      = main_manager"
    by (simp add: run_def main_manager_def)
  have t: "trim ready_line = ready_line"
    by (simp add: trim_def ready_line_def ascii_def isWhiteSpace_def)
  have h1: "fst (start Number_toString sample_env main_manager) = None"
    by (rule started_session_facts)
  have h2: "trim ready_line \<noteq> []" by (simp add: t) (simp add: ready_line_def ascii_def)
  have h3: "?parse (trim ready_line) = Some ?m" by (simp add: t parse_ready_line)
  have h4: "event_notification ?m = Some NReady"
    by (simp add: event_notification_def ascii_def)
  from T1 h1 have s1: "process started_session \<noteq> None" and s2: "\<not> running started_session"
    unfolding new started_session_def by blast+
  from T1 h2 h3 h4 have r1: "is_ready_line ?parse ready_line" by blast
  have "split_newline (lineBuffer started_session @ Buffer_toString (ready_line @ [10]))
      = [ready_line, []]"
    by (simp add: started_session_facts Buffer_toString_ascii ready_line_def ascii_def)
  with r1 have r2: "list_ex (is_ready_line ?parse)
      (butlast (split_newline (lineBuffer started_session @ Buffer_toString (ready_line @ [10]))))"
    by simp
  from T1 s1 r2
  have r3: "running (step parse_sample Number_toString (StdoutData (ready_line @ [10])) started_session)"
    by blast
  then have r4: "running ready_session" by (simp add: ready_session_step)
  then have p: "process ready_session \<noteq> None" by (simp add: running_def)
  from T2 p
  have c: "process (step ?parse Number_toString (ProcessClose (Some 137)) ready_session) = None"
    "\<not> isReady (step ?parse Number_toString (ProcessClose (Some 137)) ready_session)"
    "emitted (step ?parse Number_toString (ProcessClose (Some 137)) ready_session)
       = emitted ready_session @ [NClose (Some 137)]"
    "\<not> running (step ?parse Number_toString (ProcessClose (Some 137)) ready_session)"
    by blast+
  show ?thesis
    by (intro conjI) (rule h1 s1 s2 h2 h3 h4 r1 r2 r3 r4 p c)+
qed


end
